theory Spec2Isabelle
  imports Main "HOL-Library.Char_ord" "HOL-Library.List_Lexorder"
begin

section \<open>Time and durations\<close>

text \<open>
  Go's \<open>time.Time\<close> is modelled by its wall-clock instant, an unbounded count of
  nanoseconds; every comparison of the modelled code is a wall-clock comparison (one
  operand always comes from an API object, or both went through \<open>UTC()\<close>, so no
  monotonic reading takes part). A \<open>time.Duration\<close> is an \<open>int64\<close> count of
  nanoseconds: arithmetic on durations wraps around, and the difference of two instants
  saturates at the largest and smallest duration.
\<close>

type_synonym Time = int
type_synonym Duration = int

definition int64_wrap :: "int \<Rightarrow> int" where
  "int64_wrap x = signed_take_bit 63 x"

definition maxDuration :: Duration where
  "maxDuration = 2 ^ 63 - 1"

definition minDuration :: Duration where
  "minDuration = - (2 ^ 63)"

definition Nanosecond :: Duration where
  "Nanosecond = 1"

definition Second :: Duration where
  "Second = 1000000000"

definition Minute :: Duration where
  "Minute = int64_wrap (60 * Second)"

definition Hour :: Duration where
  "Hour = int64_wrap (60 * Minute)"

definition time_Add :: "Time \<Rightarrow> Duration \<Rightarrow> Time" where
  "time_Add t d = t + d"

definition time_After :: "Time \<Rightarrow> Time \<Rightarrow> bool" where
  "time_After t u = (u < t)"

definition time_Before :: "Time \<Rightarrow> Time \<Rightarrow> bool" where
  "time_Before t u = (t < u)"

definition time_Sub :: "Time \<Rightarrow> Time \<Rightarrow> Duration" where
  "time_Sub t u =
     (if maxDuration < t - u then maxDuration
      else if t - u < minDuration then minDuration
      else t - u)"

text \<open>\<open>time.Since(t)\<close> and \<open>time.Until(t)\<close>, at the clock reading \<open>now\<close> they take.\<close>

definition time_Since :: "Time \<Rightarrow> Time \<Rightarrow> Duration" where
  "time_Since now t = time_Sub now t"

definition time_Until :: "Time \<Rightarrow> Time \<Rightarrow> Duration" where
  "time_Until now t = time_Sub t now"

datatype panic = NilPointerDereference

section \<open>Stale project reconciler (package project)\<close>

record OwnerReference =
  ownerRef_APIVersion :: string
  ownerRef_Kind :: string

record Secret =
  secret_Name :: string
  secret_Type :: string
  secret_OwnerReferences :: "OwnerReference list"

definition SecretTypeOpaque :: string where
  "SecretTypeOpaque = ''Opaque''"

text \<open>
  Modelled from the spec: \<open>gardencorev1beta1.SchemeGroupVersion\<close> is declared in the API
  package, outside the sources at hand; its \<open>String()\<close> is the group and the version of
  the core API, joined by a slash.
\<close>

definition SchemeGroupVersion_String :: string where
  "SchemeGroupVersion_String = ''core.gardener.cloud/v1beta1''"

definition isShootOwnerRef :: "OwnerReference \<Rightarrow> bool" where
  "isShootOwnerRef ownerRef =
     (ownerRef_APIVersion ownerRef = SchemeGroupVersion_String \<and> ownerRef_Kind ownerRef = ''Shoot'')"

text \<open>
  The inner loop of \<open>computeSecretNames\<close> over the owner references of one secret. Its
  only statement is a \<open>continue\<close>, which in Go continues the innermost loop, this one:
  whether the reference points to a Shoot or not, the loop goes on to the next reference,
  and it ends with no effect on the enclosing loop. The set of names collected so far is
  passed through it.
\<close>

fun ownerReferencesLoop :: "OwnerReference list \<Rightarrow> string set \<Rightarrow> string set" where
  "ownerReferencesLoop [] names = names"
| "ownerReferencesLoop (ownerRef # rest) names =
     (if isShootOwnerRef ownerRef then ownerReferencesLoop rest names
      else ownerReferencesLoop rest names)"

fun computeSecretNamesLoop :: "Secret list \<Rightarrow> string set \<Rightarrow> string set" where
  "computeSecretNamesLoop [] names = names"
| "computeSecretNamesLoop (secret # rest) names =
     (if secret_Type secret \<noteq> SecretTypeOpaque then computeSecretNamesLoop rest names
      else computeSecretNamesLoop rest
             (insert (secret_Name secret)
                (ownerReferencesLoop (secret_OwnerReferences secret) names)))"

definition computeSecretNames :: "Secret list \<Rightarrow> string set" where
  "computeSecretNames secretList = computeSecretNamesLoop secretList {}"

text \<open>
  What the doc comment of \<open>computeSecretNames\<close> announces: the names of the secrets of
  type Opaque that have no owner reference to a Shoot.
\<close>

definition computeSecretNames_documented :: "Secret list \<Rightarrow> string set" where
  "computeSecretNames_documented secretList =
     secret_Name ` {s \<in> set secretList.
        secret_Type s = SecretTypeOpaque \<and> \<not> list_ex isShootOwnerRef (secret_OwnerReferences s)}"

record ProjectStatus =
  StaleSinceTimestamp :: "Time option"
  StaleAutoDeleteTimestamp :: "Time option"

text \<open>
  The fields of \<open>ProjectControllerConfiguration\<close> the reconciler reads; both are
  pointers to an \<open>int\<close> (64 bits), dereferenced without a nil check.
\<close>

record ProjectControllerConfiguration =
  StaleGracePeriodDays :: "int option"
  StaleExpirationTimeDays :: "int option"

text \<open>\<open>time.Hour * 24 * time.Duration(days)\<close>, a product of \<open>int64\<close> values.\<close>

definition daysDuration :: "int \<Rightarrow> Duration" where
  "daysDuration days = int64_wrap (int64_wrap (Hour * 24) * days)"

text \<open>
  The status mutation of \<open>markProjectAsNotStale\<close> and \<open>markProjectAsStale\<close> (the function
  handed to \<open>TryPatchStatus\<close>). \<open>nowFunc\<close> is the clock: \<open>nowFunc k\<close> is what its
  \<open>k\<close>-th call returns; it is called once to stamp a project that is not stale yet, and
  once more for the grace period check.
\<close>

definition markProjectAsNotStale :: "ProjectStatus \<Rightarrow> ProjectStatus" where
  "markProjectAsNotStale status = status\<lparr>StaleSinceTimestamp := None, StaleAutoDeleteTimestamp := None\<rparr>"

definition markProjectAsStale ::
  "ProjectControllerConfiguration \<Rightarrow> (nat \<Rightarrow> Time) \<Rightarrow> ProjectStatus \<Rightarrow> panic + ProjectStatus" where
  "markProjectAsStale config nowFunc status =
     (let (staleSince, calls) =
            (case StaleSinceTimestamp status of
               None \<Rightarrow> (nowFunc 0, 1 :: nat)
             | Some t \<Rightarrow> (t, 0));
          status1 = status\<lparr>StaleSinceTimestamp := Some staleSince\<rparr>
      in case StaleGracePeriodDays config of
           None \<Rightarrow> Inl NilPointerDereference
         | Some graceDays \<Rightarrow>
             if time_After (time_Add staleSince (daysDuration graceDays)) (nowFunc calls)
             then Inr (status1\<lparr>StaleAutoDeleteTimestamp := None\<rparr>)
             else (case StaleExpirationTimeDays config of
                     None \<Rightarrow> Inl NilPointerDereference
                   | Some expirationDays \<Rightarrow>
                       (let autoDeleteTimestamp = time_Add staleSince (daysDuration expirationDays)
                        in case StaleAutoDeleteTimestamp status1 of
                             None \<Rightarrow> Inr (status1\<lparr>StaleAutoDeleteTimestamp := Some autoDeleteTimestamp\<rparr>)
                           | Some old \<Rightarrow>
                               if time_After autoDeleteTimestamp old
                               then Inr (status1\<lparr>StaleAutoDeleteTimestamp := Some autoDeleteTimestamp\<rparr>)
                               else Inr status1)))"

text \<open>
  Repeated invocations, each with the configuration and the clock of its own time; a panic
  ends the run.
\<close>

fun markProjectAsStale_repeated ::
  "(ProjectControllerConfiguration \<times> (nat \<Rightarrow> Time)) list \<Rightarrow> ProjectStatus \<Rightarrow> panic + ProjectStatus" where
  "markProjectAsStale_repeated [] status = Inr status"
| "markProjectAsStale_repeated ((config, nowFunc) # rest) status =
     (case markProjectAsStale config nowFunc status of
        Inl p \<Rightarrow> Inl p
      | Inr status' \<Rightarrow> markProjectAsStale_repeated rest status')"

section \<open>Errors and error codes (package helper)\<close>

text \<open>
  A Go \<open>error\<close> value, by the three observations the modelled code makes of it: the
  message \<open>Error()\<close> returns, the codes of the first \<open>Coder\<close> that \<open>errors.As\<close> finds
  in its chain (if there is one), and whether \<open>apierrors.IsNotFound\<close> holds of it.
\<close>

type_synonym ErrorCode = string

datatype error = Error (error_Error: string) (error_Codes: "ErrorCode list option") (error_IsNotFound: bool)

definition errors_New :: "string \<Rightarrow> error" where
  "errors_New message = Error message None False"

definition ErrorWithCodes :: "string \<Rightarrow> ErrorCode list \<Rightarrow> error" where
  "ErrorWithCodes message codes = Error message (Some codes) False"

text \<open>
  \<open>DetermineErrorCodes\<close>. The table \<open>knownCodes\<close> (one regular expression matcher per known
  code) is a parameter: the code constants are declared in the API package and the
  matchers belong to Go's \<open>regexp\<close>, both outside the sources at hand. It is a Go map, so
  its keys are distinct. Codes the error already carries are taken over and their table
  entries dropped; every remaining code whose matcher accepts the message is added;
  \<open>codes.List()\<close> returns the set of codes sorted, a nil slice when it is empty.
\<close>

definition DetermineErrorCodes :: "(ErrorCode \<times> (string \<Rightarrow> bool)) list \<Rightarrow> error \<Rightarrow> ErrorCode list" where
  "DetermineErrorCodes knownCodes err =
     (let message = error_Error err;
          reused = (case error_Codes err of None \<Rightarrow> [] | Some cs \<Rightarrow> cs);
          remaining = filter (\<lambda>(code, matchFn). code \<notin> set reused) knownCodes;
          matched = map fst (filter (\<lambda>(code, matchFn). code \<notin> set reused \<and> matchFn message) remaining)
      in sort (remdups (reused @ matched)))"

definition DetermineError :: "(ErrorCode \<times> (string \<Rightarrow> bool)) list \<Rightarrow> error option \<Rightarrow> string \<Rightarrow> error" where
  "DetermineError knownCodes err message =
     (case err of
        None \<Rightarrow> errors_New message
      | Some e \<Rightarrow>
          (let errMsg = (if message = [] then error_Error e else message);
               codes = DetermineErrorCodes knownCodes e
           in if codes = [] then errors_New errMsg else ErrorWithCodes errMsg codes))"

text \<open>
  Modelled from the spec: \<open>utilerrors.Errors\<close> is not among the sources. It lists the parts
  of an aggregated error; an error that is not an aggregate, as every error built by
  \<open>DetermineError\<close> is, is its own single part.
\<close>

definition utilerrors_Errors :: "error \<Rightarrow> error list" where
  "utilerrors_Errors err = [err]"

definition ExtractErrorCodes :: "error \<Rightarrow> ErrorCode list" where
  "ExtractErrorCodes err =
     concat (map (\<lambda>e. case error_Codes e of None \<Rightarrow> [] | Some cs \<Rightarrow> cs) (utilerrors_Errors err))"

text \<open>
  Modelled from the spec: the worker reconciler hands \<open>HasErrorCode\<close> the extracted codes
  themselves, and the helper of that signature is not among the sources at hand (the one
  there loops over the codes of each \<open>LastError\<close> of a list). It says whether the codes
  include the given code; the loop below is that of the helper at hand, over the codes.
\<close>

fun HasErrorCode :: "ErrorCode list \<Rightarrow> ErrorCode \<Rightarrow> bool" where
  "HasErrorCode [] code = False"
| "HasErrorCode (current # rest) code = (if current = code then True else HasErrorCode rest code)"

section \<open>Controller results\<close>

text \<open>\<open>reconcile.Result\<close> of controller-runtime; its zero value is \<open>Result{}\<close>.\<close>

record Result =
  Requeue :: bool
  RequeueAfter :: Duration

definition Result_zero :: Result where
  "Result_zero = \<lparr>Requeue = False, RequeueAfter = 0\<rparr>"

section \<open>Worker extension reconciler (package worker)\<close>

datatype LastOperationType =
    LastOperationTypeCreate
  | LastOperationTypeReconcile
  | LastOperationTypeDelete
  | LastOperationTypeMigrate
  | LastOperationTypeRestore

datatype LastOperationState =
    LastOperationStateProcessing
  | LastOperationStateSucceeded
  | LastOperationStateError
  | LastOperationStateFailed
  | LastOperationStatePending
  | LastOperationStateAborted

record LastOperation =
  lastOperation_Type :: LastOperationType
  lastOperation_State :: LastOperationState

record Worker =
  worker_Namespace :: string
  worker_DeletionTimestamp :: "Time option"
  worker_Annotations :: "string \<rightharpoonup> string"
  worker_LastOperation :: "LastOperation option"

definition backoffOnInfrastructureRequestThrottling :: Duration where
  "backoffOnInfrastructureRequestThrottling = int64_wrap (10 * Minute)"

text \<open>
  Modelled from the spec: the annotation key and value \<open>v1beta1constants.GardenerOperation\<close>
  and \<open>GardenerOperationRestore\<close> are declared outside the sources at hand; the claim
  names them the gardener operation annotation and the value restore.
\<close>

definition GardenerOperation :: string where
  "GardenerOperation = ''gardener.cloud/operation''"

definition GardenerOperationRestore :: string where
  "GardenerOperationRestore = ''restore''"

text \<open>Reading a Go map: a key that is absent reads as the zero value, the empty string.\<close>

definition map_index :: "(string \<rightharpoonup> string) \<Rightarrow> string \<Rightarrow> string" where
  "map_index m k = (case m k of None \<Rightarrow> [] | Some v \<Rightarrow> v)"

definition isWorkerMigrated :: "Worker \<Rightarrow> bool" where
  "isWorkerMigrated worker =
     (case worker_LastOperation worker of
        None \<Rightarrow> False
      | Some lastOperation \<Rightarrow>
          lastOperation_Type lastOperation = LastOperationTypeMigrate \<and>
          lastOperation_State lastOperation = LastOperationStateSucceeded)"

text \<open>
  The world around one call of \<open>Reconcile\<close>: what the client returns for the Worker and
  for its Cluster, the helpers \<open>IsFailed\<close> and \<open>ComputeOperationType\<close> (on the worker's
  metadata and last operation) of other packages, what each of the four flows
  \<open>migrate\<close>, \<open>delete\<close>, \<open>restore\<close> and \<open>reconcile\<close> returns when it is run, the table of known
  error codes and the code constant \<open>ErrorInfraRequestThrottling\<close>.
\<close>

record 'cluster WorkerEnv =
  getWorker :: "error + Worker"
  GetCluster :: "string \<Rightarrow> error + 'cluster"
  IsFailed :: "'cluster \<Rightarrow> bool"
  ComputeOperationType :: "Worker \<Rightarrow> LastOperationType"
  migrate :: "Worker \<Rightarrow> 'cluster \<Rightarrow> Result \<times> error option"
  delete :: "Worker \<Rightarrow> 'cluster \<Rightarrow> Result \<times> error option"
  restore :: "Worker \<Rightarrow> 'cluster \<Rightarrow> Result \<times> error option"
  reconcile :: "Worker \<Rightarrow> 'cluster \<Rightarrow> LastOperationType \<Rightarrow> Result \<times> error option"
  knownCodes :: "(ErrorCode \<times> (string \<Rightarrow> bool)) list"
  ErrorInfraRequestThrottling :: ErrorCode

text \<open>The flow a call of \<open>Reconcile\<close> runs, recorded in its outcome.\<close>

datatype Operation =
    MigrateFlow
  | DeleteFlow
  | RestoreFlow
  | ReconcileFlow LastOperationType

text \<open>The \<open>switch\<close> of \<open>Reconcile\<close>: the flows that ran, and the result and error they gave.\<close>

definition worker_switch ::
  "'cluster WorkerEnv \<Rightarrow> Worker \<Rightarrow> 'cluster \<Rightarrow> Operation list \<times> Result \<times> error option" where
  "worker_switch env worker cluster =
     (let operationType = ComputeOperationType env worker
      in if isWorkerMigrated worker then ([], Result_zero, None)
         else if operationType = LastOperationTypeMigrate
           then ([MigrateFlow], migrate env worker cluster)
         else if worker_DeletionTimestamp worker \<noteq> None
           then ([DeleteFlow], delete env worker cluster)
         else if map_index (worker_Annotations worker) GardenerOperation = GardenerOperationRestore
           then ([RestoreFlow], restore env worker cluster)
         else ([ReconcileFlow operationType], reconcile env worker cluster operationType))"

definition worker_Reconcile ::
  "'cluster WorkerEnv \<Rightarrow> Operation list \<times> Result \<times> error option" where
  "worker_Reconcile env =
     (case getWorker env of
        Inl err \<Rightarrow>
          if error_IsNotFound err then ([], Result_zero, None) else ([], Result_zero, Some err)
      | Inr worker \<Rightarrow>
          (case GetCluster env (worker_Namespace worker) of
             Inl err \<Rightarrow> ([], Result_zero, Some err)
           | Inr cluster \<Rightarrow>
               if IsFailed env cluster then ([], Result_zero, None)
               else
                 (case worker_switch env worker cluster of
                    (flows, result, None) \<Rightarrow> (flows, result, None)
                  | (flows, result, Some err) \<Rightarrow>
                      (let errorCodes =
                             ExtractErrorCodes
                               (DetermineError (knownCodes env) (Some err) (error_Error err))
                       in if HasErrorCode errorCodes (ErrorInfraRequestThrottling env)
                          then (flows, \<lparr>Requeue = True,
                                      RequeueAfter = backoffOnInfrastructureRequestThrottling\<rparr>, None)
                          else (flows, result, Some err)))))"

section \<open>Bastion reconciler (package bastion)\<close>

record Bastion =
  bastion_Namespace :: string
  bastion_DeletionTimestamp :: "Time option"
  bastion_CreationTimestamp :: Time
  bastion_ShootRefName :: string
  bastion_SeedName :: "string option"
  bastion_ExpirationTimestamp :: "Time option"

text \<open>The fields of the referenced Shoot the reconciler reads.\<close>

record BastionShoot =
  shoot_DeletionTimestamp :: "Time option"
  shoot_SeedName :: "string option"

text \<open>
  The world around one call of \<open>Reconcile\<close>: what the client returns for the Bastion and
  for the Shoot, what its \<open>Delete\<close> of the Bastion returns, the configured maximum
  lifetime, and the clock (\<open>clock k\<close> is the reading of the \<open>k\<close>-th call of
  \<open>time.Now\<close>: the code reads it once directly, once in \<open>time.Since\<close> and once in each
  \<open>time.Until\<close>).
\<close>

record BastionEnv =
  getBastion :: "error + Bastion"
  getShoot :: "error + BastionShoot"
  deleteBastion :: "error option"
  maxLifetime :: Duration
  clock :: "nat \<Rightarrow> Time"

datatype ClientCall = DeleteBastion

definition IgnoreNotFound :: "error option \<Rightarrow> error option" where
  "IgnoreNotFound err =
     (case err of None \<Rightarrow> None | Some e \<Rightarrow> if error_IsNotFound e then None else Some e)"

text \<open>\<open>fmt.Errorf("could not get shoot %v: %w", shootKey, err)\<close>: the error is wrapped.\<close>

definition couldNotGetShoot :: "Bastion \<Rightarrow> error \<Rightarrow> error" where
  "couldNotGetShoot bastion err =
     Error (''could not get shoot '' @ bastion_Namespace bastion @ ''/'' @ bastion_ShootRefName bastion
              @ '': '' @ error_Error err)
           (error_Codes err) (error_IsNotFound err)"

text \<open>
  \<open>Reconcile\<close> returns the client calls that change the cluster, the result and the error.
  Where the seed names differ, the log line dereferences the Bastion's seed name, a nil
  pointer when it is not set.
\<close>

definition bastion_Reconcile :: "BastionEnv \<Rightarrow> panic + (ClientCall list \<times> Result \<times> error option)" where
  "bastion_Reconcile env =
     (case getBastion env of
        Inl err \<Rightarrow>
          if error_IsNotFound err then Inr ([], Result_zero, None)
          else Inr ([], Result_zero, Some err)
      | Inr bastion \<Rightarrow>
          if bastion_DeletionTimestamp bastion \<noteq> None then Inr ([], Result_zero, None)
          else
            (case getShoot env of
               Inl err \<Rightarrow>
                 if error_IsNotFound err
                 then Inr ([DeleteBastion], Result_zero, IgnoreNotFound (deleteBastion env))
                 else Inr ([], Result_zero, Some (couldNotGetShoot bastion err))
             | Inr shoot \<Rightarrow>
                 if shoot_DeletionTimestamp shoot \<noteq> None
                 then Inr ([DeleteBastion], Result_zero, IgnoreNotFound (deleteBastion env))
                 else if shoot_SeedName shoot \<noteq> bastion_SeedName bastion
                 then (case bastion_SeedName bastion of
                         None \<Rightarrow> Inl NilPointerDereference
                       | Some _ \<Rightarrow> Inr ([DeleteBastion], Result_zero, IgnoreNotFound (deleteBastion env)))
                 else
                   (let now = clock env 0 in
                    if (case bastion_ExpirationTimestamp bastion of
                          None \<Rightarrow> False
                        | Some expiration \<Rightarrow> time_After now expiration)
                    then Inr ([DeleteBastion], Result_zero, IgnoreNotFound (deleteBastion env))
                    else if maxLifetime env < time_Since (clock env 1) (bastion_CreationTimestamp bastion)
                    then Inr ([DeleteBastion], Result_zero, IgnoreNotFound (deleteBastion env))
                    else
                      (let requeueAfter =
                             time_Until (clock env 2)
                               (time_Add (bastion_CreationTimestamp bastion) (maxLifetime env));
                           requeueAfter' =
                             (case bastion_ExpirationTimestamp bastion of
                                None \<Rightarrow> requeueAfter
                              | Some expiration \<Rightarrow>
                                  (let expiresIn = time_Until (clock env 3) expiration
                                   in if expiresIn < requeueAfter then expiresIn else requeueAfter))
                       in Inr ([], \<lparr>Requeue = False, RequeueAfter = requeueAfter'\<rparr>, None)))))"

section \<open>Shoot health checks (package care)\<close>

text \<open>
  A \<open>gardencorev1beta1.Condition\<close>, by its type, status, reason and message (its time
  stamps and codes play no part in what follows); \<open>Condition_zero\<close> is the zero value of
  a declared variable.
\<close>

record Condition =
  condition_Type :: string
  condition_Status :: string
  condition_Reason :: string
  condition_Message :: string

definition Condition_zero :: Condition where
  "Condition_zero = \<lparr>condition_Type = [], condition_Status = [], condition_Reason = [], condition_Message = []\<rparr>"

text \<open>
  Modelled from the spec: the condition types are constants of the API package, outside
  the sources at hand; the claims name them.
\<close>

definition ShootAPIServerAvailable :: string where
  "ShootAPIServerAvailable = ''APIServerAvailable''"

definition ShootControlPlaneHealthy :: string where
  "ShootControlPlaneHealthy = ''ControlPlaneHealthy''"

definition ShootEveryNodeReady :: string where
  "ShootEveryNodeReady = ''EveryNodeReady''"

definition ShootSystemComponentsHealthy :: string where
  "ShootSystemComponentsHealthy = ''SystemComponentsHealthy''"

definition ConditionTrue :: string where
  "ConditionTrue = ''True''"

record ExtensionCondition =
  extension_Condition :: Condition
  ExtensionType :: string
  ExtensionName :: string
  ExtensionNamespace :: string

text \<open>An extension object of a list, by what its accessor gives.\<close>

record ExtensionObject =
  object_Kind :: string
  object_Name :: string
  object_Namespace :: string
  object_Conditions :: "Condition list"

datatype ExtensionList =
    BackupEntryList
  | ContainerRuntimeList
  | ControlPlaneList
  | ExtensionList
  | InfrastructureList
  | NetworkList
  | OperatingSystemConfigList
  | WorkerList

record Pod =
  pod_Labels :: "string \<rightharpoonup> string"

text \<open>The four checks of \<open>healthChecks\<close>, recorded when they run.\<close>

datatype HealthCheck =
    APIServerAvailabilityCheck
  | ControlPlaneCheck
  | ClusterNodesCheck
  | SystemComponentsCheck

text \<open>
  The world around one call of \<open>healthChecks\<close>. The shoot: whether hibernation is enabled,
  whether the status says hibernated, its last operation, its purpose, whether it wants an
  alert manager. The clients: what the seed client lists for each extension kind (an item
  is an error where its accessor fails), what it returns for a managed resource, what the
  shoot client lists as tunnel pods, what \<open>initializeShootClients\<close> returns (whether the
  API server runs, and the error). The helpers of other packages, none of them among the
  sources at hand: \<open>shootHibernatedConditions\<close>, \<open>PardonConditions\<close>, the methods of the
  \<open>HealthChecker\<close>, the condition builders of the API helper package, the health
  functions, how \<open>%+v\<close> prints an error, and the names and the version constraint that
  \<open>checkSystemComponents\<close> reads.
\<close>

record 'mr HealthEnv =
  HibernationEnabled :: bool
  IsHibernated :: bool
  shoot_LastOperation :: "LastOperation option"
  PurposeIsTesting :: bool
  WantsAlertmanager :: bool
  seedList :: "ExtensionList \<Rightarrow> error + (error + ExtensionObject) list"
  getManagedResource :: "string \<Rightarrow> error + 'mr"
  listTunnelPods :: "error + Pod list"
  initializeShootClients :: "bool \<times> error option"
  shootHibernatedConditions :: "Condition list \<Rightarrow> Condition list"
  PardonConditions :: "Condition list \<Rightarrow> Condition list"
  shootControlPlaneNotRunningMessage :: "LastOperation option \<Rightarrow> string"
  formatError :: "error \<Rightarrow> string"
  FailedCondition :: "Condition \<Rightarrow> string \<Rightarrow> string \<Rightarrow> Condition"
  UpdatedCondition :: "Condition \<Rightarrow> string \<Rightarrow> string \<Rightarrow> string \<Rightarrow> Condition"
  UpdatedConditionUnknownErrorMessage :: "Condition \<Rightarrow> string \<Rightarrow> Condition"
  NewConditionOrError :: "Condition \<Rightarrow> Condition option \<Rightarrow> error option \<Rightarrow> Condition"
  CheckAPIServerAvailability :: "Condition \<Rightarrow> (string \<Rightarrow> string \<Rightarrow> Condition) \<Rightarrow> Condition"
  CheckControlPlane :: "Condition \<Rightarrow> Condition option \<times> error option"
  CheckMonitoringControlPlane :: "bool \<Rightarrow> bool \<Rightarrow> Condition \<Rightarrow> Condition option \<times> error option"
  LoggingEnabled :: bool
  CheckLoggingControlPlane :: "bool \<Rightarrow> Condition \<Rightarrow> Condition option \<times> error option"
  CheckExtensionCondition :: "Condition \<Rightarrow> ExtensionCondition list \<Rightarrow> Condition option"
  CheckClusterNodes :: "Condition \<Rightarrow> Condition option \<times> error option"
  CheckManagedResource :: "Condition \<Rightarrow> 'mr \<Rightarrow> Condition option"
  CheckTunnelConnection :: "string \<Rightarrow> bool \<times> error option"
  managedResourcesShoot :: "string list"
  versionConstraintGreaterEqual113 :: bool
  metricsserverManagedResourceName :: string
  VPNTunnel :: string
  KonnectivityTunnel :: string

text \<open>\<open>getAllExtensionConditions\<close>: the conditions of all extension objects, by type.\<close>

type_synonym ExtensionConditions =
  "ExtensionCondition list \<times> ExtensionCondition list \<times> ExtensionCondition list"

fun sortExtensionConditions :: "ExtensionObject \<Rightarrow> Condition list \<Rightarrow> ExtensionConditions \<Rightarrow> ExtensionConditions" where
  "sortExtensionConditions obj [] acc = acc"
| "sortExtensionConditions obj (condition # rest) (cp, nodes, sys) =
     (let entry = \<lparr>extension_Condition = condition, ExtensionType = object_Kind obj,
                    ExtensionName = object_Name obj, ExtensionNamespace = object_Namespace obj\<rparr>
      in if condition_Type condition = ShootControlPlaneHealthy
           then sortExtensionConditions obj rest (cp @ [entry], nodes, sys)
         else if condition_Type condition = ShootEveryNodeReady
           then sortExtensionConditions obj rest (cp, nodes @ [entry], sys)
         else if condition_Type condition = ShootSystemComponentsHealthy
           then sortExtensionConditions obj rest (cp, nodes, sys @ [entry])
         else sortExtensionConditions obj rest (cp, nodes, sys))"

fun eachListItem :: "(error + ExtensionObject) list \<Rightarrow> ExtensionConditions \<Rightarrow> error + ExtensionConditions" where
  "eachListItem [] acc = Inr acc"
| "eachListItem (Inl err # rest) acc = Inl err"
| "eachListItem (Inr obj # rest) acc =
     eachListItem rest (sortExtensionConditions obj (object_Conditions obj) acc)"

fun extensionListsLoop ::
  "'mr HealthEnv \<Rightarrow> ExtensionList list \<Rightarrow> ExtensionConditions \<Rightarrow> error + ExtensionConditions" where
  "extensionListsLoop env [] acc = Inr acc"
| "extensionListsLoop env (listObj # rest) acc =
     (case seedList env listObj of
        Inl err \<Rightarrow> Inl err
      | Inr items \<Rightarrow>
          (case eachListItem items acc of
             Inl err \<Rightarrow> Inl err
           | Inr acc' \<Rightarrow> extensionListsLoop env rest acc'))"

definition getAllExtensionConditions :: "'mr HealthEnv \<Rightarrow> error + ExtensionConditions" where
  "getAllExtensionConditions env =
     extensionListsLoop env
       [BackupEntryList, ContainerRuntimeList, ControlPlaneList, ExtensionList,
        InfrastructureList, NetworkList, OperatingSystemConfigList, WorkerList]
       ([], [], [])"

definition checkAPIServerAvailability :: "'mr HealthEnv \<Rightarrow> Condition \<Rightarrow> Condition" where
  "checkAPIServerAvailability env condition =
     CheckAPIServerAvailability env condition
       (\<lambda>conditionType message. FailedCondition env condition conditionType message)"

definition checkControlPlane ::
  "'mr HealthEnv \<Rightarrow> Condition \<Rightarrow> ExtensionCondition list \<Rightarrow> Condition option \<times> error option" where
  "checkControlPlane env condition extensionConditions =
     (case CheckControlPlane env condition of
        (exitCondition, err) \<Rightarrow>
          if err \<noteq> None \<or> exitCondition \<noteq> None then (exitCondition, err)
          else
            (case CheckMonitoringControlPlane env (PurposeIsTesting env) (WantsAlertmanager env) condition of
               (exitCondition, err) \<Rightarrow>
                 if err \<noteq> None \<or> exitCondition \<noteq> None then (exitCondition, err)
                 else
                   (case (if LoggingEnabled env
                          then CheckLoggingControlPlane env (PurposeIsTesting env) condition
                          else (None, None)) of
                      (exitCondition, err) \<Rightarrow>
                        if err \<noteq> None \<or> exitCondition \<noteq> None then (exitCondition, err)
                        else
                          (case CheckExtensionCondition env condition extensionConditions of
                             Some exitCondition \<Rightarrow> (Some exitCondition, None)
                           | None \<Rightarrow>
                               (Some (UpdatedCondition env condition ConditionTrue ''ControlPlaneRunning''
                                        ''All control plane components are healthy.''), None)))))"

fun managedResourcesLoop ::
  "'mr HealthEnv \<Rightarrow> Condition \<Rightarrow> string list \<Rightarrow> (Condition option \<times> error option) option" where
  "managedResourcesLoop env condition [] = None"
| "managedResourcesLoop env condition (name # rest) =
     (case getManagedResource env name of
        Inl err \<Rightarrow> Some (None, Some err)
      | Inr mr \<Rightarrow>
          (case CheckManagedResource env condition mr of
             Some exitCondition \<Rightarrow> Some (Some exitCondition, None)
           | None \<Rightarrow> managedResourcesLoop env condition rest))"

text \<open>
  \<open>checkSystemComponents\<close>. With no tunnel pod the condition fails; otherwise the first
  pod's \<open>app\<close> label chooses the tunnel whose connection is checked.
\<close>

definition checkSystemComponents ::
  "'mr HealthEnv \<Rightarrow> Condition \<Rightarrow> ExtensionCondition list \<Rightarrow> Condition option \<times> error option" where
  "checkSystemComponents env condition extensionConditions =
     (let managedResources =
            (if versionConstraintGreaterEqual113 env
             then managedResourcesShoot env @ [metricsserverManagedResourceName env]
             else managedResourcesShoot env)
      in case managedResourcesLoop env condition managedResources of
           Some exit \<Rightarrow> exit
         | None \<Rightarrow>
             (case CheckExtensionCondition env condition extensionConditions of
                Some exitCondition \<Rightarrow> (Some exitCondition, None)
              | None \<Rightarrow>
                  (case listTunnelPods env of
                     Inl err \<Rightarrow> (None, Some err)
                   | Inr [] \<Rightarrow>
                       (Some (FailedCondition env condition ''NoTunnelDeployed''
                                ''no tunnels are currently deployed to perform health-check on''), None)
                   | Inr (pod # pods) \<Rightarrow>
                       (let tunnelName =
                              (if map_index (pod_Labels pod) ''app'' = KonnectivityTunnel env
                               then KonnectivityTunnel env else VPNTunnel env)
                        in case CheckTunnelConnection env tunnelName of
                             (established, err) \<Rightarrow>
                               if err \<noteq> None \<or> \<not> established
                               then (Some (FailedCondition env condition ''TunnelConnectionBroken''
                                             (''Tunnel connection has not been established'' @
                                                (case err of
                                                   None \<Rightarrow> []
                                                 | Some e \<Rightarrow> '' ('' @ formatError env e @ '')''))), None)
                               else (Some (UpdatedCondition env condition ConditionTrue
                                             ''SystemComponentsRunning''
                                             ''All system components are healthy.''), None)))))"

definition checkClusterNodes ::
  "'mr HealthEnv \<Rightarrow> Condition \<Rightarrow> ExtensionCondition list \<Rightarrow> Condition option \<times> error option" where
  "checkClusterNodes env condition extensionConditions =
     (case CheckClusterNodes env condition of
        (exitCondition, err) \<Rightarrow>
          if err \<noteq> None \<or> exitCondition \<noteq> None then (exitCondition, err)
          else
            (case CheckExtensionCondition env condition extensionConditions of
               Some exitCondition \<Rightarrow> (Some exitCondition, None)
             | None \<Rightarrow>
                 (Some (UpdatedCondition env condition ConditionTrue ''EveryNodeReady''
                          ''Every node registered to the cluster is ready.''), None)))"

text \<open>
  The loop of \<open>healthChecks\<close> over the given conditions: each of the four variables takes
  the condition of its type, the last one where the type occurs more than once.
\<close>

fun conditionsLoop ::
  "Condition list \<Rightarrow> Condition \<times> Condition \<times> Condition \<times> Condition \<Rightarrow>
   Condition \<times> Condition \<times> Condition \<times> Condition" where
  "conditionsLoop [] vars = vars"
| "conditionsLoop (cond # rest) (apiserverAvailability, controlPlane, nodes, systemComponents) =
     (if condition_Type cond = ShootAPIServerAvailable
        then conditionsLoop rest (cond, controlPlane, nodes, systemComponents)
      else if condition_Type cond = ShootControlPlaneHealthy
        then conditionsLoop rest (apiserverAvailability, cond, nodes, systemComponents)
      else if condition_Type cond = ShootEveryNodeReady
        then conditionsLoop rest (apiserverAvailability, controlPlane, cond, systemComponents)
      else if condition_Type cond = ShootSystemComponentsHealthy
        then conditionsLoop rest (apiserverAvailability, controlPlane, nodes, cond)
      else conditionsLoop rest (apiserverAvailability, controlPlane, nodes, systemComponents))"

text \<open>
  \<open>healthChecks\<close> returns the conditions, and with them the checks that ran. The four
  checks of the last branch run in parallel, each on a variable of its own; they are
  recorded in the order of the source.
\<close>

definition healthChecks :: "'mr HealthEnv \<Rightarrow> Condition list \<Rightarrow> Condition list \<times> HealthCheck list" where
  "healthChecks env conditions =
     (if HibernationEnabled env \<or> IsHibernated env
      then (shootHibernatedConditions env conditions, [])
      else
        (case conditionsLoop conditions (Condition_zero, Condition_zero, Condition_zero, Condition_zero) of
           (apiserverAvailability, controlPlane, nodes, systemComponents) \<Rightarrow>
             (case (case getAllExtensionConditions env of
                      Inl err \<Rightarrow> ([], [], [])
                    | Inr found \<Rightarrow> found) of
                (extensionConditionsControlPlaneHealthy, extensionConditionsEveryNodeReady,
                 extensionConditionsSystemComponentsHealthy) \<Rightarrow>
                  (case initializeShootClients env of
                     (apiServerRunning, err) \<Rightarrow>
                       if err \<noteq> None \<or> \<not> apiServerRunning
                       then
                         (let message =
                                (case err of
                                   None \<Rightarrow> shootControlPlaneNotRunningMessage env (shoot_LastOperation env)
                                 | Some e \<Rightarrow>
                                     ''Could not initialize Shoot client for health check: '' @ formatError env e);
                              apiserverAvailability' =
                                FailedCondition env apiserverAvailability ''APIServerDown''
                                  ''Could not reach API server during client initialization.'';
                              nodes' = UpdatedConditionUnknownErrorMessage env nodes message;
                              systemComponents' = UpdatedConditionUnknownErrorMessage env systemComponents message;
                              controlPlane' =
                                (case checkControlPlane env controlPlane extensionConditionsControlPlaneHealthy of
                                   (newControlPlane, err) \<Rightarrow> NewConditionOrError env controlPlane newControlPlane err)
                          in ([apiserverAvailability', controlPlane', nodes', systemComponents'],
                              [ControlPlaneCheck]))
                       else
                         (let apiserverAvailability' = checkAPIServerAvailability env apiserverAvailability;
                              controlPlane' =
                                (case checkControlPlane env controlPlane extensionConditionsControlPlaneHealthy of
                                   (newControlPlane, err) \<Rightarrow> NewConditionOrError env controlPlane newControlPlane err);
                              nodes' =
                                (case checkClusterNodes env nodes extensionConditionsEveryNodeReady of
                                   (newNodes, err) \<Rightarrow> NewConditionOrError env nodes newNodes err);
                              systemComponents' =
                                (case checkSystemComponents env systemComponents
                                        extensionConditionsSystemComponentsHealthy of
                                   (newSystemComponents, err) \<Rightarrow>
                                     NewConditionOrError env systemComponents newSystemComponents err)
                          in ([apiserverAvailability', controlPlane', nodes', systemComponents'],
                              [APIServerAvailabilityCheck, ControlPlaneCheck, ClusterNodesCheck,
                               SystemComponentsCheck]))))))"

definition Health_Check :: "'mr HealthEnv \<Rightarrow> Condition list \<Rightarrow> Condition list" where
  "Health_Check env conditions = PardonConditions env (fst (healthChecks env conditions))"

section \<open>Dependency graph tracker (package graph)\<close>

text \<open>
  Modelled from the spec: the graph and its event handlers are not among the sources at
  hand; their test is, and the model follows it. A vertex is a type, a namespace and a
  name; an edge is directed. An object contributes one edge for each of its references,
  between the vertex of the object and the vertex of what it refers to, and the vertices
  of its edges; a vertex stays in the graph only as long as it has an edge. \<open>HasPathFrom\<close>
  says whether both vertices exist and the second is reached from the first along edges.
\<close>

datatype VertexType =
    VertexTypeBackupBucket
  | VertexTypeBackupEntry
  | VertexTypeCloudProfile
  | VertexTypeConfigMap
  | VertexTypeNamespace
  | VertexTypeProject
  | VertexTypeSecret
  | VertexTypeSecretBinding
  | VertexTypeSeed
  | VertexTypeShoot

type_synonym vertex = "VertexType \<times> string \<times> string"

definition vertexType :: "vertex \<Rightarrow> VertexType" where
  "vertexType v = fst v"

record graph =
  graph_vertices :: "vertex set"
  graph_edges :: "(vertex \<times> vertex) set"

definition emptyGraph :: graph where
  "emptyGraph = \<lparr>graph_vertices = {}, graph_edges = {}\<rparr>"

definition addEdge :: "graph \<Rightarrow> vertex \<Rightarrow> vertex \<Rightarrow> graph" where
  "addEdge g fromVertex toVertex =
     \<lparr>graph_vertices = insert fromVertex (insert toVertex (graph_vertices g)),
      graph_edges = insert (fromVertex, toVertex) (graph_edges g)\<rparr>"

fun addEdges :: "graph \<Rightarrow> (vertex \<times> vertex) list \<Rightarrow> graph" where
  "addEdges g [] = g"
| "addEdges g ((fromVertex, toVertex) # rest) = addEdges (addEdge g fromVertex toVertex) rest"

definition hasEdge :: "(vertex \<times> vertex) set \<Rightarrow> vertex \<Rightarrow> bool" where
  "hasEdge edges v = (\<exists>e \<in> edges. fst e = v \<or> snd e = v)"

text \<open>
  Modelled from the spec: removing edges. The given edges go, and with them every vertex
  of a removed edge that is left without an edge (in the test, a seed whose two secret
  references are removed leaves no node at all).
\<close>

definition removeEdges :: "graph \<Rightarrow> (vertex \<times> vertex) set \<Rightarrow> graph" where
  "removeEdges g removed =
     (let gone = graph_edges g \<inter> removed;
          kept = graph_edges g - removed;
          touched = fst ` gone \<union> snd ` gone
      in \<lparr>graph_vertices = {v \<in> graph_vertices g. v \<notin> touched \<or> hasEdge kept v},
          graph_edges = kept\<rparr>)"

text \<open>
  Modelled from the spec: deleting a vertex removes its edges as above, and the vertex.
\<close>

definition deleteVertex :: "graph \<Rightarrow> vertex \<Rightarrow> graph" where
  "deleteVertex g v =
     (let g' = removeEdges g {e \<in> graph_edges g. fst e = v \<or> snd e = v}
      in g'\<lparr>graph_vertices := graph_vertices g' - {v}\<rparr>)"

definition reachStep :: "(vertex \<times> vertex) set \<Rightarrow> vertex set \<Rightarrow> vertex set" where
  "reachStep edges reached = reached \<union> edges `` reached"

text \<open>
  Modelled from the spec: \<open>HasPathFrom\<close>. Both vertices are in the graph and the second is
  reached from the first along edges; the search goes on for one round more than there are
  edges, enough for every path that uses no edge twice.
\<close>

definition HasPathFrom ::
  "graph \<Rightarrow> VertexType \<Rightarrow> string \<Rightarrow> string \<Rightarrow> VertexType \<Rightarrow> string \<Rightarrow> string \<Rightarrow> bool" where
  "HasPathFrom g fromType fromNamespace fromName toType toNamespace toName =
     (let fromVertex = (fromType, fromNamespace, fromName);
          toVertex = (toType, toNamespace, toName)
      in fromVertex \<in> graph_vertices g \<and> toVertex \<in> graph_vertices g \<and>
         toVertex \<in> (reachStep (graph_edges g) ^^ Suc (card (graph_edges g))) {fromVertex})"

text \<open>The watched objects, by the fields that hold their references.\<close>

record SecretReference =
  secretRef_Namespace :: string
  secretRef_Name :: string

record Seed =
  seed_Name :: string
  seed_SecretRef :: "SecretReference option"
  seed_Backup :: "SecretReference option"

record CrossVersionObjectReference =
  resourceRef_APIVersion :: string
  resourceRef_Kind :: string
  resourceRef_Name :: string

text \<open>
  \<open>shoot_KubeAPIServer\<close> is \<open>None\<close> for \<open>spec.kubernetes.kubeAPIServer = nil\<close> and otherwise
  holds the name of the audit policy config map, if one is referenced; \<open>shoot_DNS\<close> is
  \<open>None\<close> for \<open>spec.dns = nil\<close> and otherwise holds the secret name of each provider.
\<close>

record Shoot =
  shoot_Namespace :: string
  shoot_Name :: string
  shoot_CloudProfileName :: string
  shoot_SecretBindingName :: string
  shoot_SpecSeedName :: "string option"
  shoot_StatusSeedName :: "string option"
  shoot_KubeAPIServer :: "string option option"
  shoot_DNS :: "string option list option"
  shoot_Resources :: "CrossVersionObjectReference list"

record Project =
  project_Name :: string
  project_Namespace :: "string option"

record BackupBucket =
  backupBucket_Name :: string
  backupBucket_SecretRef :: SecretReference
  backupBucket_SeedName :: "string option"

record BackupEntry =
  backupEntry_Namespace :: string
  backupEntry_Name :: string
  backupEntry_BucketName :: string
  backupEntry_SeedName :: "string option"

record SecretBinding =
  secretBinding_Namespace :: string
  secretBinding_Name :: string
  secretBinding_SecretRef :: SecretReference

datatype object =
    SeedObject Seed
  | ShootObject Shoot
  | ProjectObject Project
  | BackupBucketObject BackupBucket
  | BackupEntryObject BackupEntry
  | SecretBindingObject SecretBinding

fun objectVertex :: "object \<Rightarrow> vertex" where
  "objectVertex (SeedObject seed) = (VertexTypeSeed, [], seed_Name seed)"
| "objectVertex (ShootObject shoot) = (VertexTypeShoot, shoot_Namespace shoot, shoot_Name shoot)"
| "objectVertex (ProjectObject project) = (VertexTypeProject, [], project_Name project)"
| "objectVertex (BackupBucketObject backupBucket) = (VertexTypeBackupBucket, [], backupBucket_Name backupBucket)"
| "objectVertex (BackupEntryObject backupEntry) =
     (VertexTypeBackupEntry, backupEntry_Namespace backupEntry, backupEntry_Name backupEntry)"
| "objectVertex (SecretBindingObject secretBinding) =
     (VertexTypeSecretBinding, secretBinding_Namespace secretBinding, secretBinding_Name secretBinding)"

definition secretVertex :: "SecretReference \<Rightarrow> vertex" where
  "secretVertex ref = (VertexTypeSecret, secretRef_Namespace ref, secretRef_Name ref)"

definition seedVertex :: "string \<Rightarrow> vertex" where
  "seedVertex name = (VertexTypeSeed, [], name)"

text \<open>
  Modelled from the spec: the edges of an object, as the test expects them. A seed: from its secret and from its backup secret. A shoot:
  from its namespace, its cloud profile, its secret binding, its audit policy config map,
  the secrets of its DNS providers and the secrets among its resources, and to the seeds
  of its spec and of its status. A project: to its namespace. A backup bucket: from its
  secret and to its seed. A backup entry: to its bucket and to its seed. A secret
  binding: from its secret.
\<close>

fun references :: "object \<Rightarrow> (vertex \<times> vertex) list" where
  "references (SeedObject seed) =
     map (\<lambda>ref. (secretVertex ref, objectVertex (SeedObject seed)))
       (case_option [] (\<lambda>ref. [ref]) (seed_SecretRef seed) @
        case_option [] (\<lambda>ref. [ref]) (seed_Backup seed))"
| "references (ShootObject shoot) =
     map (\<lambda>v. (v, objectVertex (ShootObject shoot)))
       ([(VertexTypeNamespace, [], shoot_Namespace shoot),
         (VertexTypeCloudProfile, [], shoot_CloudProfileName shoot),
         (VertexTypeSecretBinding, shoot_Namespace shoot, shoot_SecretBindingName shoot)] @
        (case shoot_KubeAPIServer shoot of
           Some (Some name) \<Rightarrow> [(VertexTypeConfigMap, shoot_Namespace shoot, name)]
         | _ \<Rightarrow> []) @
        (case shoot_DNS shoot of
           None \<Rightarrow> []
         | Some providers \<Rightarrow>
             concat (map (\<lambda>secretName.
                       case secretName of
                         None \<Rightarrow> []
                       | Some name \<Rightarrow> [(VertexTypeSecret, shoot_Namespace shoot, name)]) providers)) @
        map (\<lambda>resource. (VertexTypeSecret, shoot_Namespace shoot, resourceRef_Name resource))
          (filter (\<lambda>resource. resourceRef_APIVersion resource = ''v1'' \<and>
                              resourceRef_Kind resource = ''Secret'') (shoot_Resources shoot))) @
     map (\<lambda>name. (objectVertex (ShootObject shoot), seedVertex name))
       (case_option [] (\<lambda>name. [name]) (shoot_SpecSeedName shoot) @
        case_option [] (\<lambda>name. [name]) (shoot_StatusSeedName shoot))"
| "references (ProjectObject project) =
     map (\<lambda>name. (objectVertex (ProjectObject project), (VertexTypeNamespace, [], name)))
       (case_option [] (\<lambda>name. [name]) (project_Namespace project))"
| "references (BackupBucketObject backupBucket) =
     (secretVertex (backupBucket_SecretRef backupBucket), objectVertex (BackupBucketObject backupBucket)) #
     map (\<lambda>name. (objectVertex (BackupBucketObject backupBucket), seedVertex name))
       (case_option [] (\<lambda>name. [name]) (backupBucket_SeedName backupBucket))"
| "references (BackupEntryObject backupEntry) =
     (objectVertex (BackupEntryObject backupEntry),
      (VertexTypeBackupBucket, [], backupEntry_BucketName backupEntry)) #
     map (\<lambda>name. (objectVertex (BackupEntryObject backupEntry), seedVertex name))
       (case_option [] (\<lambda>name. [name]) (backupEntry_SeedName backupEntry))"
| "references (SecretBindingObject secretBinding) =
     [(secretVertex (secretBinding_SecretRef secretBinding), objectVertex (SecretBindingObject secretBinding))]"

text \<open>
  Modelled from the spec: the types of the vertices an object has edges from, and of those it has edges to: the
  edges of these types at the vertex of the object are the ones its handler maintains.
\<close>

fun incomingTypes :: "object \<Rightarrow> VertexType set" where
  "incomingTypes (SeedObject seed) = {VertexTypeSecret}"
| "incomingTypes (ShootObject shoot) =
     {VertexTypeNamespace, VertexTypeCloudProfile, VertexTypeSecretBinding, VertexTypeConfigMap,
      VertexTypeSecret}"
| "incomingTypes (ProjectObject project) = {}"
| "incomingTypes (BackupBucketObject backupBucket) = {VertexTypeSecret}"
| "incomingTypes (BackupEntryObject backupEntry) = {}"
| "incomingTypes (SecretBindingObject secretBinding) = {VertexTypeSecret}"

fun outgoingTypes :: "object \<Rightarrow> VertexType set" where
  "outgoingTypes (SeedObject seed) = {}"
| "outgoingTypes (ShootObject shoot) = {VertexTypeSeed}"
| "outgoingTypes (ProjectObject project) = {VertexTypeNamespace}"
| "outgoingTypes (BackupBucketObject backupBucket) = {VertexTypeSeed}"
| "outgoingTypes (BackupEntryObject backupEntry) = {VertexTypeBackupBucket, VertexTypeSeed}"
| "outgoingTypes (SecretBindingObject secretBinding) = {}"

definition maintainedEdges :: "graph \<Rightarrow> object \<Rightarrow> (vertex \<times> vertex) set" where
  "maintainedEdges g obj =
     {e \<in> graph_edges g.
        (snd e = objectVertex obj \<and> vertexType (fst e) \<in> incomingTypes obj) \<or>
        (fst e = objectVertex obj \<and> vertexType (snd e) \<in> outgoingTypes obj)}"

text \<open>
  Modelled from the spec: the event handlers. On an add and on an update the edges maintained for the object are
  removed and the edges of the new version are added; on a delete the vertex of the
  object is deleted.
\<close>

definition handleCreateOrUpdate :: "graph \<Rightarrow> object \<Rightarrow> graph" where
  "handleCreateOrUpdate g obj = addEdges (removeEdges g (maintainedEdges g obj)) (references obj)"

definition handleDelete :: "graph \<Rightarrow> object \<Rightarrow> graph" where
  "handleDelete g obj = deleteVertex g (objectVertex obj)"

datatype event = Add object | Update object object | Delete object

fun handleEvent :: "graph \<Rightarrow> event \<Rightarrow> graph" where
  "handleEvent g (Add obj) = handleCreateOrUpdate g obj"
| "handleEvent g (Update oldObj newObj) = handleCreateOrUpdate g newObj"
| "handleEvent g (Delete obj) = handleDelete g obj"

section \<open>SeedRestriction admission webhook (package seedrestriction)\<close>

text \<open>
  Modelled from the spec: the handler is not among the sources at hand; its test is, and
  the model follows it. A request comes from a seed user when the user name starts with
  the seed user name prefix and the user is in the seeds group, as the users of the test
  are built. \<open>Handle\<close> has no opinion on a request that is not from a seed user, and none
  on a resource it does not handle: it answers allowed, with code 200. For each resource
  it handles it hands the request to the admission function of that resource; these are
  parameters.
\<close>

record UserInfo =
  user_Username :: string
  user_Groups :: "string list"

record GroupVersionResource =
  gvr_Group :: string
  gvr_Version :: string
  gvr_Resource :: string

record AdmissionRequest =
  request_UserInfo :: UserInfo
  request_Resource :: GroupVersionResource
  request_Operation :: string
  request_Namespace :: string
  request_Name :: string

record AdmissionResponse =
  response_Allowed :: bool
  response_Code :: int
  response_Message :: string

definition SeedUserNamePrefix :: string where
  "SeedUserNamePrefix = ''gardener.cloud:system:seed:''"

definition SeedsGroup :: string where
  "SeedsGroup = ''gardener.cloud:system:seeds''"

definition SeedUserNameSuffixAmbiguous :: string where
  "SeedUserNameSuffixAmbiguous = ''<ambiguous>''"

definition StatusOK :: int where
  "StatusOK = 200"

definition Allowed :: "string \<Rightarrow> AdmissionResponse" where
  "Allowed message = \<lparr>response_Allowed = True, response_Code = StatusOK, response_Message = message\<rparr>"

text \<open>
  Modelled from the spec: the seed name of the user (empty when ambiguous), and whether
  it is a seed user.
\<close>

definition FromAuthenticationV1UserInfo :: "UserInfo \<Rightarrow> string \<times> bool" where
  "FromAuthenticationV1UserInfo userInfo =
     (if take (length SeedUserNamePrefix) (user_Username userInfo) \<noteq> SeedUserNamePrefix
        then ([], False)
      else if SeedsGroup \<notin> set (user_Groups userInfo)
        then ([], False)
      else
        (let suffix = drop (length SeedUserNamePrefix) (user_Username userInfo)
         in (if suffix = SeedUserNameSuffixAmbiguous then [] else suffix, True)))"

text \<open>
  Modelled from the spec: the resources the handler has an opinion on, each a group and a
  resource, as the requests of the test name them.
\<close>

definition backupBucketResource :: "string \<times> string" where
  "backupBucketResource = (''core.gardener.cloud'', ''backupbuckets'')"

definition backupEntryResource :: "string \<times> string" where
  "backupEntryResource = (''core.gardener.cloud'', ''backupentries'')"

definition bastionResource :: "string \<times> string" where
  "bastionResource = (''operations.gardener.cloud'', ''bastions'')"

definition certificateSigningRequestResource :: "string \<times> string" where
  "certificateSigningRequestResource = (''certificates.k8s.io'', ''certificatesigningrequests'')"

definition leaseResource :: "string \<times> string" where
  "leaseResource = (''coordination.k8s.io'', ''leases'')"

definition seedResource :: "string \<times> string" where
  "seedResource = (''core.gardener.cloud'', ''seeds'')"

definition shootExtensionStatusResource :: "string \<times> string" where
  "shootExtensionStatusResource = (''core.gardener.cloud'', ''shootextensionstatuses'')"

definition shootStateResource :: "string \<times> string" where
  "shootStateResource = (''core.gardener.cloud'', ''shootstates'')"

definition handledResources :: "(string \<times> string) set" where
  "handledResources =
     {backupBucketResource, backupEntryResource, bastionResource, certificateSigningRequestResource,
      leaseResource, seedResource, shootExtensionStatusResource, shootStateResource}"

text \<open>
  Modelled from the spec: the admission functions of the handled resources, and \<open>Handle\<close>,
  which dispatches on the user and on the group and resource of the request.
\<close>

record AdmissionEnv =
  admitBackupBucket :: "string \<Rightarrow> AdmissionRequest \<Rightarrow> AdmissionResponse"
  admitBackupEntry :: "string \<Rightarrow> AdmissionRequest \<Rightarrow> AdmissionResponse"
  admitBastion :: "string \<Rightarrow> AdmissionRequest \<Rightarrow> AdmissionResponse"
  admitCertificateSigningRequest :: "string \<Rightarrow> AdmissionRequest \<Rightarrow> AdmissionResponse"
  admitLease :: "string \<Rightarrow> AdmissionRequest \<Rightarrow> AdmissionResponse"
  admitSeed :: "string \<Rightarrow> AdmissionRequest \<Rightarrow> AdmissionResponse"
  admitShootExtensionStatus :: "string \<Rightarrow> AdmissionRequest \<Rightarrow> AdmissionResponse"
  admitShootState :: "string \<Rightarrow> AdmissionRequest \<Rightarrow> AdmissionResponse"

definition Handle :: "AdmissionEnv \<Rightarrow> AdmissionRequest \<Rightarrow> AdmissionResponse" where
  "Handle env request =
     (case FromAuthenticationV1UserInfo (request_UserInfo request) of
        (seedName, isSeed) \<Rightarrow>
          if \<not> isSeed then Allowed []
          else
            (let requestResource =
                   (gvr_Group (request_Resource request), gvr_Resource (request_Resource request))
             in if requestResource = backupBucketResource then admitBackupBucket env seedName request
                else if requestResource = backupEntryResource then admitBackupEntry env seedName request
                else if requestResource = bastionResource then admitBastion env seedName request
                else if requestResource = certificateSigningRequestResource
                  then admitCertificateSigningRequest env seedName request
                else if requestResource = leaseResource then admitLease env seedName request
                else if requestResource = seedResource then admitSeed env seedName request
                else if requestResource = shootExtensionStatusResource
                  then admitShootExtensionStatus env seedName request
                else if requestResource = shootStateResource then admitShootState env seedName request
                else Allowed []))"

section \<open>Durations\<close>

lemma int64_wrap_id: "- (2 ^ 63) \<le> x \<Longrightarrow> x < 2 ^ 63 \<Longrightarrow> int64_wrap x = x"
  unfolding int64_wrap_def by (rule signed_take_bit_int_eq_self) simp_all

lemma Minute_eq: "Minute = 60000000000"
  by (simp add: Minute_def Second_def int64_wrap_id)

lemma Hour_eq: "Hour = 3600000000000"
  by (simp add: Hour_def Minute_eq int64_wrap_id)

lemma daysDuration_small:
  assumes "0 \<le> days" and "days \<le> 106751"
  shows "daysDuration days = 86400000000000 * days"
proof -
  have day: "int64_wrap (Hour * 24) = 86400000000000"
    by (simp add: Hour_eq int64_wrap_id)
  have "86400000000000 * days \<le> 86400000000000 * 106751"
    using assms by simp
  then have "86400000000000 * days < 2 ^ 63" by simp
  moreover have "- (2 ^ 63) \<le> 86400000000000 * days" using assms by simp
  ultimately show ?thesis
    by (simp add: daysDuration_def day int64_wrap_id)
qed

section \<open>Properties of the stale project reconciler\<close>

lemma ownerReferencesLoop_id: "ownerReferencesLoop refs names = names"
  by (induction refs) simp_all

lemma computeSecretNamesLoop_eq:
  "computeSecretNamesLoop secretList names =
     names \<union> secret_Name ` {s \<in> set secretList. secret_Type s = SecretTypeOpaque}"
proof (induction secretList arbitrary: names)
  case Nil
  show ?case by simp
next
  case (Cons secret rest)
  show ?case
  proof (cases "secret_Type secret = SecretTypeOpaque")
    case True
    then show ?thesis
      using Cons.IH [of "insert (secret_Name secret) names"]
      by (auto simp: ownerReferencesLoop_id)
  next
    case False
    then show ?thesis using Cons.IH [of names] by auto
  qed
qed

lemma computeSecretNames_eq:
  "computeSecretNames secretList =
     secret_Name ` {s \<in> set secretList. secret_Type s = SecretTypeOpaque}"
  by (simp add: computeSecretNames_def computeSecretNamesLoop_eq)

lemma markProjectAsStale_StaleSince:
  assumes "markProjectAsStale config nowFunc status = Inr status'"
  shows "StaleSinceTimestamp status' =
           Some (case StaleSinceTimestamp status of None \<Rightarrow> nowFunc 0 | Some t \<Rightarrow> t)"
  using assms
  by (auto simp: markProjectAsStale_def Let_def split: option.splits if_splits)

lemma markProjectAsStale_keeps_StaleSince:
  assumes "markProjectAsStale config nowFunc status = Inr status'"
    and "StaleSinceTimestamp status = Some t"
  shows "StaleSinceTimestamp status' = Some t"
  using markProjectAsStale_StaleSince [OF assms(1)] assms(2) by simp

lemma markProjectAsStale_repeated_keeps_StaleSince:
  "StaleSinceTimestamp status = Some t \<Longrightarrow>
   markProjectAsStale_repeated runs status = Inr status' \<Longrightarrow>
   StaleSinceTimestamp status' = Some t"
proof (induction runs arbitrary: status)
  case Nil
  then show ?case by simp
next
  case (Cons run rest)
  obtain config nowFunc where run: "run = (config, nowFunc)" by (cases run)
  from Cons.prems(2) run obtain mid where
    mid: "markProjectAsStale config nowFunc status = Inr mid"
    and rest: "markProjectAsStale_repeated rest mid = Inr status'"
    by (auto split: sum.splits)
  from markProjectAsStale_keeps_StaleSince [OF mid Cons.prems(1)]
  have "StaleSinceTimestamp mid = Some t" .
  from Cons.IH [OF this rest] show ?case .
qed

lemma markProjectAsStale_grace:
  assumes "markProjectAsStale config nowFunc status = Inr status'"
    and "StaleSinceTimestamp status' = Some since"
    and "StaleGracePeriodDays config = Some graceDays"
    and "time_After (time_Add since (daysDuration graceDays))
           (nowFunc (case StaleSinceTimestamp status of None \<Rightarrow> 1 | Some _ \<Rightarrow> 0))"
  shows "StaleAutoDeleteTimestamp status' = None"
  using assms
  by (auto simp: markProjectAsStale_def Let_def split: option.splits if_splits)

lemma markProjectAsStale_auto_delete:
  assumes "markProjectAsStale config nowFunc status = Inr status'"
    and "StaleAutoDeleteTimestamp status = Some old"
    and "StaleAutoDeleteTimestamp status' = Some new"
  shows "new = old \<or>
         (\<exists>since expirationDays.
            StaleSinceTimestamp status' = Some since \<and>
            StaleExpirationTimeDays config = Some expirationDays \<and>
            new = time_Add since (daysDuration expirationDays) \<and> time_After new old)"
  using assms
  by (auto simp: markProjectAsStale_def Let_def split: option.splits if_splits)

lemma markProjectAsStale_total:
  assumes "StaleGracePeriodDays config = Some graceDays"
    and "StaleExpirationTimeDays config = Some expirationDays"
  shows "\<exists>status'. markProjectAsStale config nowFunc status = Inr status'"
  using assms
  by (auto simp: markProjectAsStale_def Let_def split: option.splits prod.splits)

text \<open>
  Claim C8 (computeSecretNames). The claim reads: the result holds exactly the names of
  the secrets of type Opaque that have no owner reference to a Shoot. The code returns
  the name of every secret of type Opaque: for an Opaque secret owned by a Shoot of the
  core API group the name is in the result of the code and absent from the documented
  result.
\<close>

theorem computeSecretNames_shoot_owned_secret:
  "computeSecretNames
     [\<lparr>secret_Name = ''owned'', secret_Type = ''Opaque'',
       secret_OwnerReferences =
         [\<lparr>ownerRef_APIVersion = ''core.gardener.cloud/v1beta1'', ownerRef_Kind = ''Shoot''\<rparr>]\<rparr>]
     = {''owned''} \<and>
   computeSecretNames_documented
     [\<lparr>secret_Name = ''owned'', secret_Type = ''Opaque'',
       secret_OwnerReferences =
         [\<lparr>ownerRef_APIVersion = ''core.gardener.cloud/v1beta1'', ownerRef_Kind = ''Shoot''\<rparr>]\<rparr>]
     = {}"
  by (simp add: computeSecretNames_def computeSecretNames_documented_def SecretTypeOpaque_def
      isShootOwnerRef_def SchemeGroupVersion_String_def)

text \<open>
  Claim C9 (markProjectAsStale). For an invocation that returns (the configured day counts
  are set): an already set StaleSinceTimestamp is kept, also across any number of
  invocations; an already set StaleAutoDeleteTimestamp is never replaced by an earlier
  one, and when it is replaced by another timestamp, that one is the newly computed
  StaleSinceTimestamp plus StaleExpirationTimeDays, strictly later than the old one;
  and while StaleSinceTimestamp plus StaleGracePeriodDays is after the clock reading of
  the check, the auto-delete timestamp is nil afterwards. The day counts are turned into
  durations as the code does (\<open>daysDuration\<close>, a product of 64-bit integers).
\<close>

theorem markProjectAsStale_timestamps:
  assumes "markProjectAsStale config nowFunc status = Inr status'"
  shows "(\<forall>t. StaleSinceTimestamp status = Some t \<longrightarrow> StaleSinceTimestamp status' = Some t) \<and>
         (\<forall>t runs final. StaleSinceTimestamp status = Some t \<and>
              markProjectAsStale_repeated runs status = Inr final \<longrightarrow>
              StaleSinceTimestamp final = Some t) \<and>
         (\<forall>old new. StaleAutoDeleteTimestamp status = Some old \<and>
              StaleAutoDeleteTimestamp status' = Some new \<longrightarrow>
              old \<le> new \<and>
              (new \<noteq> old \<longrightarrow>
                 (\<exists>since expirationDays.
                    StaleSinceTimestamp status' = Some since \<and>
                    StaleExpirationTimeDays config = Some expirationDays \<and>
                    new = time_Add since (daysDuration expirationDays) \<and>
                    time_After new old))) \<and>
         (\<forall>since graceDays. StaleSinceTimestamp status' = Some since \<and>
              StaleGracePeriodDays config = Some graceDays \<and>
              time_After (time_Add since (daysDuration graceDays))
                (nowFunc (case StaleSinceTimestamp status of None \<Rightarrow> 1 | Some _ \<Rightarrow> 0)) \<longrightarrow>
              StaleAutoDeleteTimestamp status' = None)"
proof (intro conjI allI impI)
  fix t
  assume "StaleSinceTimestamp status = Some t"
  with assms show "StaleSinceTimestamp status' = Some t"
    by (rule markProjectAsStale_keeps_StaleSince)
next
  fix t runs final
  assume "StaleSinceTimestamp status = Some t \<and>
          markProjectAsStale_repeated runs status = Inr final"
  then show "StaleSinceTimestamp final = Some t"
    using markProjectAsStale_repeated_keeps_StaleSince by blast
next
  fix old new
  assume h: "StaleAutoDeleteTimestamp status = Some old \<and>
             StaleAutoDeleteTimestamp status' = Some new"
  then have "new = old \<or>
         (\<exists>since expirationDays.
            StaleSinceTimestamp status' = Some since \<and>
            StaleExpirationTimeDays config = Some expirationDays \<and>
            new = time_Add since (daysDuration expirationDays) \<and> time_After new old)"
    using markProjectAsStale_auto_delete [OF assms, of old new] by simp
  then show "old \<le> new" by (auto simp: time_After_def)
next
  fix old new
  assume h: "StaleAutoDeleteTimestamp status = Some old \<and>
             StaleAutoDeleteTimestamp status' = Some new"
    and "new \<noteq> old"
  with markProjectAsStale_auto_delete [OF assms, of old new]
  show "\<exists>since expirationDays.
          StaleSinceTimestamp status' = Some since \<and>
          StaleExpirationTimeDays config = Some expirationDays \<and>
          new = time_Add since (daysDuration expirationDays) \<and> time_After new old"
    by blast
next
  fix since graceDays
  assume "StaleSinceTimestamp status' = Some since \<and>
          StaleGracePeriodDays config = Some graceDays \<and>
          time_After (time_Add since (daysDuration graceDays))
            (nowFunc (case StaleSinceTimestamp status of None \<Rightarrow> 1 | Some _ \<Rightarrow> 0))"
  with assms show "StaleAutoDeleteTimestamp status' = None"
    using markProjectAsStale_grace by blast
qed

theorem markProjectAsStale_timestamps_witness:
  "markProjectAsStale
     \<lparr>StaleGracePeriodDays = Some 14, StaleExpirationTimeDays = Some 30\<rparr>
     (\<lambda>k. 1296000000000000)
     \<lparr>StaleSinceTimestamp = Some 0, StaleAutoDeleteTimestamp = Some 1728000000000000\<rparr>
   = Inr \<lparr>StaleSinceTimestamp = Some 0, StaleAutoDeleteTimestamp = Some 2592000000000000\<rparr> \<and>
   markProjectAsStale
     \<lparr>StaleGracePeriodDays = Some 14, StaleExpirationTimeDays = Some 30\<rparr>
     (\<lambda>k. 86400000000000)
     \<lparr>StaleSinceTimestamp = Some 0, StaleAutoDeleteTimestamp = Some 1728000000000000\<rparr>
   = Inr \<lparr>StaleSinceTimestamp = Some 0, StaleAutoDeleteTimestamp = None\<rparr> \<and>
   (1728000000000000 :: int) \<le> 2592000000000000 \<and>
   time_After (time_Add 0 (daysDuration 14)) 86400000000000"
proof -
  have d14: "daysDuration 14 = 1209600000000000"
    by (simp add: daysDuration_small)
  have d30: "daysDuration 30 = 2592000000000000"
    by (simp add: daysDuration_small)
  have run1: "markProjectAsStale
     \<lparr>StaleGracePeriodDays = Some 14, StaleExpirationTimeDays = Some 30\<rparr>
     (\<lambda>k. 1296000000000000)
     \<lparr>StaleSinceTimestamp = Some 0, StaleAutoDeleteTimestamp = Some 1728000000000000\<rparr>
   = Inr \<lparr>StaleSinceTimestamp = Some 0, StaleAutoDeleteTimestamp = Some 2592000000000000\<rparr>"
    by (simp add: markProjectAsStale_def d14 d30 time_After_def time_Add_def)
  have run2: "markProjectAsStale
     \<lparr>StaleGracePeriodDays = Some 14, StaleExpirationTimeDays = Some 30\<rparr>
     (\<lambda>k. 86400000000000)
     \<lparr>StaleSinceTimestamp = Some 0, StaleAutoDeleteTimestamp = Some 1728000000000000\<rparr>
   = Inr \<lparr>StaleSinceTimestamp = Some 0, StaleAutoDeleteTimestamp = None\<rparr>"
    by (simp add: markProjectAsStale_def d14 d30 time_After_def time_Add_def)
  have g: "time_After (time_Add 0 (daysDuration 14)) 86400000000000"
    by (simp add: d14 time_After_def time_Add_def)
  from markProjectAsStale_timestamps [OF run1] markProjectAsStale_timestamps [OF run2] g
  have "(1728000000000000 :: int) \<le> 2592000000000000" by simp
  with run1 run2 g show ?thesis by simp
qed

section \<open>Properties of the error helpers\<close>

lemma HasErrorCode_iff: "HasErrorCode codes code \<longleftrightarrow> code \<in> set codes"
  by (induction codes) auto

lemma set_DetermineErrorCodes:
  "set (DetermineErrorCodes known err) =
     (case error_Codes err of None \<Rightarrow> {} | Some cs \<Rightarrow> set cs) \<union>
     {code. \<exists>matchFn. (code, matchFn) \<in> set known \<and> matchFn (error_Error err)}"
  by (force simp: DetermineErrorCodes_def Let_def image_iff split: option.splits)

lemma ExtractErrorCodes_DetermineError:
  "ExtractErrorCodes (DetermineError known (Some err) message) = DetermineErrorCodes known err"
  by (simp add: ExtractErrorCodes_def DetermineError_def utilerrors_Errors_def Let_def
      errors_New_def ErrorWithCodes_def)

lemma backoff_eq: "backoffOnInfrastructureRequestThrottling = 10 * Minute"
  by (simp add: backoffOnInfrastructureRequestThrottling_def Minute_eq int64_wrap_id)

section \<open>Properties of the worker reconciler\<close>



lemma worker_switch_outcome:
  assumes "worker_switch env worker cluster = (flows, result, err)"
  shows "(flows = [] \<and> result = Result_zero \<and> err = None) \<or>
         (flows = [MigrateFlow] \<and> migrate env worker cluster = (result, err)) \<or>
         (flows = [DeleteFlow] \<and> delete env worker cluster = (result, err)) \<or>
         (flows = [RestoreFlow] \<and> restore env worker cluster = (result, err)) \<or>
         (flows = [ReconcileFlow (ComputeOperationType env worker)] \<and>
            reconcile env worker cluster (ComputeOperationType env worker) = (result, err))"
  using assms by (auto simp: worker_switch_def Let_def split: if_splits)




text \<open>
  Claim C7 (worker Reconcile, request throttling). When the flow that ran (the one the
  switch chose, see \<open>worker_switch_outcome\<close>) returns an error and the error codes
  determined for it (\<open>ExtractErrorCodes\<close> of \<open>DetermineError\<close>)
  include the code for infrastructure request throttling, \<open>Reconcile\<close> returns no error
  and the result that asks for a requeue after ten minutes.
\<close>

theorem worker_Reconcile_throttling:
  assumes "getWorker env = Inr worker"
    and "GetCluster env (worker_Namespace worker) = Inr cluster"
    and "\<not> IsFailed env cluster"
    and "worker_switch env worker cluster = (flows, result, Some err)"
    and "ErrorInfraRequestThrottling env \<in>
           set (ExtractErrorCodes (DetermineError (knownCodes env) (Some err) (error_Error err)))"
  shows "worker_Reconcile env = (flows, \<lparr>Requeue = True, RequeueAfter = 10 * Minute\<rparr>, None)"
  using assms
  by (simp add: worker_Reconcile_def Let_def HasErrorCode_iff backoff_eq)

theorem worker_Reconcile_throttling_witness:
  "worker_Reconcile
     \<lparr>getWorker = Inr \<lparr>worker_Namespace = ''shoot--dev--a'', worker_DeletionTimestamp = Some 5,
                         worker_Annotations = Map.empty, worker_LastOperation = None\<rparr>,
      GetCluster = (\<lambda>namespace. Inr ()),
      IsFailed = (\<lambda>cluster. False),
      ComputeOperationType = (\<lambda>worker. LastOperationTypeReconcile),
      migrate = (\<lambda>worker cluster. (Result_zero, None)),
      delete = (\<lambda>worker cluster. (Result_zero, Some (Error ''RequestLimitExceeded'' None False))),
      restore = (\<lambda>worker cluster. (Result_zero, None)),
      reconcile = (\<lambda>worker cluster operationType. (Result_zero, None)),
      knownCodes = [(''ERR_INFRA_REQUEST_THROTTLING'', (\<lambda>message. message = ''RequestLimitExceeded''))],
      ErrorInfraRequestThrottling = ''ERR_INFRA_REQUEST_THROTTLING''\<rparr>
   = ([DeleteFlow], \<lparr>Requeue = True, RequeueAfter = 600000000000\<rparr>, None)"
proof -
  let ?worker = "\<lparr>worker_Namespace = ''shoot--dev--a'', worker_DeletionTimestamp = Some 5,
                         worker_Annotations = Map.empty, worker_LastOperation = None\<rparr>"
  let ?err = "Error ''RequestLimitExceeded'' None False"
  let ?env = "\<lparr>getWorker = Inr ?worker,
      GetCluster = (\<lambda>namespace. Inr ()),
      IsFailed = (\<lambda>cluster. False),
      ComputeOperationType = (\<lambda>worker. LastOperationTypeReconcile),
      migrate = (\<lambda>worker cluster. (Result_zero, None)),
      delete = (\<lambda>worker cluster. (Result_zero, Some ?err)),
      restore = (\<lambda>worker cluster. (Result_zero, None)),
      reconcile = (\<lambda>worker cluster operationType. (Result_zero, None)),
      knownCodes = [(''ERR_INFRA_REQUEST_THROTTLING'', (\<lambda>message. message = ''RequestLimitExceeded''))],
      ErrorInfraRequestThrottling = ''ERR_INFRA_REQUEST_THROTTLING''\<rparr>"
  have switch: "worker_switch ?env ?worker () = ([DeleteFlow], Result_zero, Some ?err)"
    by (simp add: worker_switch_def isWorkerMigrated_def)
  have codes: "ErrorInfraRequestThrottling ?env \<in>
      set (ExtractErrorCodes (DetermineError (knownCodes ?env) (Some ?err) (error_Error ?err)))"
    by (simp add: ExtractErrorCodes_DetermineError set_DetermineErrorCodes)
  show ?thesis
    using worker_Reconcile_throttling [of ?env ?worker "()" "[DeleteFlow]" Result_zero ?err, OF _ _ _ switch codes]
    by (simp add: Minute_eq)
qed

section \<open>Properties of the bastion reconciler\<close>

text \<open>
  Claim C10 as the spec states it fails where the lookup of the Shoot returns an error
  other than not-found: the Bastion below exists, is not marked for deletion and has
  expired (its expiration timestamp 5 is before the clock reading 10), and the reconciler
  returns the wrapped error without deleting it.
\<close>

theorem bastion_Reconcile_lookup_error_counterexample:
  "bastion_Reconcile
     \<lparr>getBastion = Inr \<lparr>bastion_Namespace = ''garden-dev'', bastion_DeletionTimestamp = None,
                          bastion_CreationTimestamp = 0, bastion_ShootRefName = ''shoot1'',
                          bastion_SeedName = Some ''seed1'',
                          bastion_ExpirationTimestamp = Some 5\<rparr>,
      getShoot = Inl (Error ''timeout'' None False),
      deleteBastion = None,
      maxLifetime = 100,
      clock = (\<lambda>k. 10)\<rparr>
   = Inr ([], Result_zero, Some (Error ''could not get shoot garden-dev/shoot1: timeout'' None False)) \<and>
   time_After 10 5"
  by (simp add: bastion_Reconcile_def couldNotGetShoot_def time_After_def)

text \<open>
  Without a seed name on the Bastion, a Shoot that exists, is not in deletion and has a
  seed name takes \<open>Reconcile\<close> to the log line that dereferences the Bastion's seed name:
  the call panics and deletes nothing. (Where neither has a seed name the names are equal
  and the line is not reached.)
\<close>

lemma bastion_Reconcile_nil_seed_name_panics:
  assumes "getBastion env = Inr bastion"
    and "bastion_DeletionTimestamp bastion = None"
    and "getShoot env = Inr shoot"
    and "shoot_DeletionTimestamp shoot = None"
    and "bastion_SeedName bastion = None"
    and "shoot_SeedName shoot \<noteq> None"
  shows "bastion_Reconcile env = Inl NilPointerDereference"
  using assms by (auto simp: bastion_Reconcile_def)

lemma bastion_Reconcile_nil_seed_name_example:
  "bastion_Reconcile
     \<lparr>getBastion = Inr \<lparr>bastion_Namespace = ''garden-dev'', bastion_DeletionTimestamp = None,
                          bastion_CreationTimestamp = 0, bastion_ShootRefName = ''shoot1'',
                          bastion_SeedName = None,
                          bastion_ExpirationTimestamp = Some 50\<rparr>,
      getShoot = Inr \<lparr>shoot_DeletionTimestamp = None, shoot_SeedName = Some ''seed1''\<rparr>,
      deleteBastion = None,
      maxLifetime = 100,
      clock = (\<lambda>k. 10)\<rparr>
   = Inl NilPointerDereference"
  by (simp add: bastion_Reconcile_def)

lemma bastion_Reconcile_wraps_lookup_error:
  assumes "getBastion env = Inr bastion"
    and "bastion_DeletionTimestamp bastion = None"
    and "getShoot env = Inl err"
    and "\<not> error_IsNotFound err"
  shows "bastion_Reconcile env = Inr ([], Result_zero, Some (couldNotGetShoot bastion err))"
  using assms by (simp add: bastion_Reconcile_def)

lemma bastion_Reconcile_lookup_answered:
  assumes "getBastion env = Inr bastion"
    and "bastion_DeletionTimestamp bastion = None"
    and nopanic: "\<forall>shoot. getShoot env = Inr shoot \<and> shoot_DeletionTimestamp shoot = None \<and>
            shoot_SeedName shoot \<noteq> None \<longrightarrow> bastion_SeedName bastion \<noteq> None"
    and "case getShoot env of Inl err \<Rightarrow> error_IsNotFound err | Inr shoot \<Rightarrow> True"
  shows "\<exists>calls result err.
      bastion_Reconcile env = Inr (calls, result, err) \<and>
      (calls = [DeleteBastion] \<or> calls = []) \<and>
      (calls = [DeleteBastion] \<longleftrightarrow>
         (\<exists>notFound. getShoot env = Inl notFound) \<or>
         (\<exists>shoot. getShoot env = Inr shoot \<and> shoot_DeletionTimestamp shoot \<noteq> None) \<or>
         (\<exists>shoot. getShoot env = Inr shoot \<and> shoot_SeedName shoot \<noteq> bastion_SeedName bastion) \<or>
         (\<exists>expiration. bastion_ExpirationTimestamp bastion = Some expiration \<and>
            time_After (clock env 0) expiration) \<or>
         maxLifetime env < time_Since (clock env 1) (bastion_CreationTimestamp bastion)) \<and>
      (calls = [] \<longrightarrow>
         err = None \<and> Requeue result = False \<and>
         RequeueAfter result =
           (case bastion_ExpirationTimestamp bastion of
              None \<Rightarrow>
                time_Until (clock env 2)
                  (time_Add (bastion_CreationTimestamp bastion) (maxLifetime env))
            | Some expiration \<Rightarrow>
                min (time_Until (clock env 3) expiration)
                    (time_Until (clock env 2)
                       (time_Add (bastion_CreationTimestamp bastion) (maxLifetime env)))))"
proof (cases "getShoot env")
  case (Inl notFound)
  with assms show ?thesis
    by (simp add: bastion_Reconcile_def)
next
  case (Inr shoot)
  show ?thesis
  proof (cases "shoot_DeletionTimestamp shoot \<noteq> None")
    case True
    with assms Inr show ?thesis
      by (auto simp: bastion_Reconcile_def)
  next
    case notDeleting: False
    show ?thesis
    proof (cases "shoot_SeedName shoot = bastion_SeedName bastion")
      case True
      with assms(1,2) Inr notDeleting show ?thesis
        by (auto simp: bastion_Reconcile_def Let_def min_def split: option.splits)
    next
      case False
      have "bastion_SeedName bastion \<noteq> None"
      proof (cases "shoot_SeedName shoot")
        case None
        with False show ?thesis by auto
      next
        case (Some seed)
        with nopanic Inr notDeleting show ?thesis by auto
      qed
      then obtain seed where "bastion_SeedName bastion = Some seed" by auto
      with assms(1,2) Inr notDeleting False show ?thesis
        by (auto simp: bastion_Reconcile_def)
    qed
  qed
qed

text \<open>
  Claim C10, amended. For an existing Bastion that is not marked for deletion (and that
  has a seed name whenever its Shoot exists, is not in deletion and has one). When the
  lookup of the Shoot fails with an error other than not-found, \<open>Reconcile\<close> returns that
  error, wrapped, and calls nothing. When the lookup succeeds or reports not-found,
  \<open>Reconcile\<close> returns; it deletes the Bastion exactly when the Shoot does not exist, or
  the Shoot has a deletion timestamp, or the seed names differ, or the expiration
  timestamp is before the clock reading, or the age exceeds the maximum lifetime;
  otherwise it calls nothing, returns no error and asks for a requeue after the time
  until the maximum lifetime is reached or, when an expiration timestamp is set, the
  smaller of that and the time until expiration.
\<close>

theorem bastion_Reconcile_deletes_iff:
  assumes "getBastion env = Inr bastion"
    and "bastion_DeletionTimestamp bastion = None"
    and "\<forall>shoot. getShoot env = Inr shoot \<and> shoot_DeletionTimestamp shoot = None \<and>
            shoot_SeedName shoot \<noteq> None \<longrightarrow> bastion_SeedName bastion \<noteq> None"
  shows
   "(\<forall>lookupError. getShoot env = Inl lookupError \<and> \<not> error_IsNotFound lookupError \<longrightarrow>
       bastion_Reconcile env =
         Inr ([], Result_zero, Some (couldNotGetShoot bastion lookupError))) \<and>
    ((case getShoot env of Inl lookupError \<Rightarrow> error_IsNotFound lookupError | Inr shoot \<Rightarrow> True) \<longrightarrow>
     (\<exists>calls result err.
        bastion_Reconcile env = Inr (calls, result, err) \<and>
        (calls = [DeleteBastion] \<or> calls = []) \<and>
        (calls = [DeleteBastion] \<longleftrightarrow>
           (\<exists>notFound. getShoot env = Inl notFound) \<or>
           (\<exists>shoot. getShoot env = Inr shoot \<and> shoot_DeletionTimestamp shoot \<noteq> None) \<or>
           (\<exists>shoot. getShoot env = Inr shoot \<and> shoot_SeedName shoot \<noteq> bastion_SeedName bastion) \<or>
           (\<exists>expiration. bastion_ExpirationTimestamp bastion = Some expiration \<and>
              time_After (clock env 0) expiration) \<or>
           maxLifetime env < time_Since (clock env 1) (bastion_CreationTimestamp bastion)) \<and>
        (calls = [] \<longrightarrow>
           err = None \<and> Requeue result = False \<and>
           RequeueAfter result =
             (case bastion_ExpirationTimestamp bastion of
                None \<Rightarrow>
                  time_Until (clock env 2)
                    (time_Add (bastion_CreationTimestamp bastion) (maxLifetime env))
              | Some expiration \<Rightarrow>
                  min (time_Until (clock env 3) expiration)
                      (time_Until (clock env 2)
                         (time_Add (bastion_CreationTimestamp bastion) (maxLifetime env)))))))"
proof (intro conjI allI impI)
  fix lookupError
  assume "getShoot env = Inl lookupError \<and> \<not> error_IsNotFound lookupError"
  with assms(1,2) show "bastion_Reconcile env =
      Inr ([], Result_zero, Some (couldNotGetShoot bastion lookupError))"
    by (simp add: bastion_Reconcile_wraps_lookup_error)
next
  assume "case getShoot env of Inl lookupError \<Rightarrow> error_IsNotFound lookupError | Inr shoot \<Rightarrow> True"
  with assms show "\<exists>calls result err.
        bastion_Reconcile env = Inr (calls, result, err) \<and>
        (calls = [DeleteBastion] \<or> calls = []) \<and>
        (calls = [DeleteBastion] \<longleftrightarrow>
           (\<exists>notFound. getShoot env = Inl notFound) \<or>
           (\<exists>shoot. getShoot env = Inr shoot \<and> shoot_DeletionTimestamp shoot \<noteq> None) \<or>
           (\<exists>shoot. getShoot env = Inr shoot \<and> shoot_SeedName shoot \<noteq> bastion_SeedName bastion) \<or>
           (\<exists>expiration. bastion_ExpirationTimestamp bastion = Some expiration \<and>
              time_After (clock env 0) expiration) \<or>
           maxLifetime env < time_Since (clock env 1) (bastion_CreationTimestamp bastion)) \<and>
        (calls = [] \<longrightarrow>
           err = None \<and> Requeue result = False \<and>
           RequeueAfter result =
             (case bastion_ExpirationTimestamp bastion of
                None \<Rightarrow>
                  time_Until (clock env 2)
                    (time_Add (bastion_CreationTimestamp bastion) (maxLifetime env))
              | Some expiration \<Rightarrow>
                  min (time_Until (clock env 3) expiration)
                      (time_Until (clock env 2)
                         (time_Add (bastion_CreationTimestamp bastion) (maxLifetime env)))))"
    by (rule bastion_Reconcile_lookup_answered)
qed

theorem bastion_Reconcile_deletes_iff_witness:
  "bastion_Reconcile
     \<lparr>getBastion = Inr \<lparr>bastion_Namespace = ''garden-dev'', bastion_DeletionTimestamp = None,
                          bastion_CreationTimestamp = 0, bastion_ShootRefName = ''shoot1'',
                          bastion_SeedName = None,
                          bastion_ExpirationTimestamp = Some 50\<rparr>,
      getShoot = Inr \<lparr>shoot_DeletionTimestamp = None, shoot_SeedName = None\<rparr>,
      deleteBastion = None,
      maxLifetime = 100,
      clock = (\<lambda>k. 10 + int k)\<rparr>
   = Inr ([], \<lparr>Requeue = False, RequeueAfter = 37\<rparr>, None) \<and>
   bastion_Reconcile
     \<lparr>getBastion = Inr \<lparr>bastion_Namespace = ''garden-dev'', bastion_DeletionTimestamp = None,
                          bastion_CreationTimestamp = 0, bastion_ShootRefName = ''shoot1'',
                          bastion_SeedName = None,
                          bastion_ExpirationTimestamp = Some 50\<rparr>,
      getShoot = Inl (Error ''etcd unavailable'' None False),
      deleteBastion = None,
      maxLifetime = 100,
      clock = (\<lambda>k. 10 + int k)\<rparr>
   = Inr ([], Result_zero,
          Some (Error ''could not get shoot garden-dev/shoot1: etcd unavailable'' None False))"
proof -
  let ?bastion = "\<lparr>bastion_Namespace = ''garden-dev'', bastion_DeletionTimestamp = None,
                          bastion_CreationTimestamp = 0, bastion_ShootRefName = ''shoot1'',
                          bastion_SeedName = None,
                          bastion_ExpirationTimestamp = Some 50\<rparr>"
  let ?env = "\<lparr>getBastion = Inr ?bastion,
      getShoot = Inr \<lparr>shoot_DeletionTimestamp = None, shoot_SeedName = None\<rparr>,
      deleteBastion = None,
      maxLifetime = 100,
      clock = (\<lambda>k. 10 + int k)\<rparr>"
  let ?failing = "\<lparr>getBastion = Inr ?bastion,
      getShoot = Inl (Error ''etcd unavailable'' None False),
      deleteBastion = None,
      maxLifetime = 100,
      clock = (\<lambda>k. 10 + int k)\<rparr>"
  have sub: "time_Sub 50 13 = 37" "time_Sub 100 12 = 88" "time_Sub 11 0 = 11"
    by (simp_all add: time_Sub_def maxDuration_def minDuration_def)
  from bastion_Reconcile_deletes_iff [of ?env ?bastion, THEN conjunct2]
  obtain calls result err where
    r: "bastion_Reconcile ?env = Inr (calls, result, err)"
    and d: "calls = [DeleteBastion] \<longleftrightarrow> False"
    and c: "calls = [DeleteBastion] \<or> calls = []"
    and q: "calls = [] \<longrightarrow> err = None \<and> Requeue result = False \<and> RequeueAfter result = 37"
    by (auto simp: time_After_def time_Since_def time_Until_def time_Add_def sub)
  from d c have "calls = []" by simp
  with q r have first: "bastion_Reconcile ?env = Inr ([], \<lparr>Requeue = False, RequeueAfter = 37\<rparr>, None)"
    by (cases result) simp
  from bastion_Reconcile_deletes_iff [of ?failing ?bastion, THEN conjunct1]
  have second: "bastion_Reconcile ?failing = Inr ([], Result_zero,
          Some (Error ''could not get shoot garden-dev/shoot1: etcd unavailable'' None False))"
    by (simp add: couldNotGetShoot_def)
  from first second show ?thesis by (rule conjI)
qed

section \<open>Properties of the shoot health checks\<close>

lemma healthChecks_hibernated:
  "HibernationEnabled env \<or> IsHibernated env \<Longrightarrow>
   healthChecks env conditions = (shootHibernatedConditions env conditions, [])"
  by (simp add: healthChecks_def)

lemma healthChecks_not_hibernated_length:
  "\<not> HibernationEnabled env \<Longrightarrow> \<not> IsHibernated env \<Longrightarrow>
   length (fst (healthChecks env conditions)) = 4"
  by (simp add: healthChecks_def Let_def split: prod.splits)

text \<open>
  Claim C5 (healthChecks, API server down). The shoot client is initialised only when the
  shoot is not hibernated. When that fails or reports that the API server is not running:
  the APIServerAvailable variable becomes the failed condition with reason
  \<open>APIServerDown\<close>; the EveryNodeReady and SystemComponentsHealthy variables become
  unknown with the message (the rendering of the error, or the message that the control
  plane is not running); the control plane check runs, and no other check; and these four
  conditions are returned in this order.
\<close>

theorem healthChecks_api_server_down:
  assumes "\<not> HibernationEnabled env" and "\<not> IsHibernated env"
    and "initializeShootClients env = (apiServerRunning, err)"
    and "err \<noteq> None \<or> \<not> apiServerRunning"
    and "conditionsLoop conditions (Condition_zero, Condition_zero, Condition_zero, Condition_zero)
           = (apiserverAvailability, controlPlane, nodes, systemComponents)"
    and "message =
           (case err of
              None \<Rightarrow> shootControlPlaneNotRunningMessage env (shoot_LastOperation env)
            | Some e \<Rightarrow> ''Could not initialize Shoot client for health check: '' @ formatError env e)"
    and "extensionConditions =
           (case getAllExtensionConditions env of Inl e \<Rightarrow> [] | Inr found \<Rightarrow> fst found)"
  shows "healthChecks env conditions =
     ([FailedCondition env apiserverAvailability ''APIServerDown''
         ''Could not reach API server during client initialization.'',
       NewConditionOrError env controlPlane
         (fst (checkControlPlane env controlPlane extensionConditions))
         (snd (checkControlPlane env controlPlane extensionConditions)),
       UpdatedConditionUnknownErrorMessage env nodes message,
       UpdatedConditionUnknownErrorMessage env systemComponents message],
      [ControlPlaneCheck])"
proof (cases "getAllExtensionConditions env")
  case (Inl e)
  with assms show ?thesis
    by (simp add: healthChecks_def Let_def split: prod.splits)
next
  case (Inr found)
  obtain cp nd sc where "found = (cp, nd, sc)" by (cases found)
  with Inr assms show ?thesis
    by (simp add: healthChecks_def Let_def split: prod.splits)
qed

theorem healthChecks_api_server_down_witness:
  "healthChecks
     \<lparr>HibernationEnabled = False, IsHibernated = False, shoot_LastOperation = None,
      PurposeIsTesting = False, WantsAlertmanager = False,
      seedList = (\<lambda>kind. Inr []),
      getManagedResource = (\<lambda>name. Inr ()),
      listTunnelPods = Inr [],
      initializeShootClients = (False, None),
      shootHibernatedConditions = (\<lambda>conditions. conditions),
      PardonConditions = (\<lambda>conditions. conditions),
      shootControlPlaneNotRunningMessage = (\<lambda>lastOperation. ''Shoot control plane is not running''),
      formatError = error_Error,
      FailedCondition = (\<lambda>condition reason message.
         condition\<lparr>condition_Status := ''False'', condition_Reason := reason, condition_Message := message\<rparr>),
      UpdatedCondition = (\<lambda>condition status reason message.
         condition\<lparr>condition_Status := status, condition_Reason := reason, condition_Message := message\<rparr>),
      UpdatedConditionUnknownErrorMessage = (\<lambda>condition message.
         condition\<lparr>condition_Status := ''Unknown'', condition_Reason := ''ConditionCheckError'',
                    condition_Message := message\<rparr>),
      NewConditionOrError = (\<lambda>oldCondition newCondition err.
         case newCondition of Some c \<Rightarrow> c | None \<Rightarrow> oldCondition),
      CheckAPIServerAvailability = (\<lambda>condition failed. condition),
      CheckControlPlane = (\<lambda>condition. (None, None)),
      CheckMonitoringControlPlane = (\<lambda>testing alertmanager condition. (None, None)),
      LoggingEnabled = False,
      CheckLoggingControlPlane = (\<lambda>testing condition. (None, None)),
      CheckExtensionCondition = (\<lambda>condition extensionConditions. None),
      CheckClusterNodes = (\<lambda>condition. (None, None)),
      CheckManagedResource = (\<lambda>condition mr. None),
      CheckTunnelConnection = (\<lambda>tunnelName. (True, None)),
      managedResourcesShoot = [],
      versionConstraintGreaterEqual113 = False,
      metricsserverManagedResourceName = ''shoot-core-metrics-server'',
      VPNTunnel = ''vpn-shoot'',
      KonnectivityTunnel = ''konnectivity-agent''\<rparr>
     [\<lparr>condition_Type = ''APIServerAvailable'', condition_Status = ''True'',
       condition_Reason = ''HealthzRequestSucceeded'', condition_Message = ''ok''\<rparr>,
      \<lparr>condition_Type = ''ControlPlaneHealthy'', condition_Status = ''True'',
       condition_Reason = ''ControlPlaneRunning'', condition_Message = ''ok''\<rparr>,
      \<lparr>condition_Type = ''EveryNodeReady'', condition_Status = ''True'',
       condition_Reason = ''EveryNodeReady'', condition_Message = ''ok''\<rparr>,
      \<lparr>condition_Type = ''SystemComponentsHealthy'', condition_Status = ''True'',
       condition_Reason = ''SystemComponentsRunning'', condition_Message = ''ok''\<rparr>]
   = ([\<lparr>condition_Type = ''APIServerAvailable'', condition_Status = ''False'',
        condition_Reason = ''APIServerDown'',
        condition_Message = ''Could not reach API server during client initialization.''\<rparr>,
       \<lparr>condition_Type = ''ControlPlaneHealthy'', condition_Status = ''True'',
        condition_Reason = ''ControlPlaneRunning'',
        condition_Message = ''All control plane components are healthy.''\<rparr>,
       \<lparr>condition_Type = ''EveryNodeReady'', condition_Status = ''Unknown'',
        condition_Reason = ''ConditionCheckError'',
        condition_Message = ''Shoot control plane is not running''\<rparr>,
       \<lparr>condition_Type = ''SystemComponentsHealthy'', condition_Status = ''Unknown'',
        condition_Reason = ''ConditionCheckError'',
        condition_Message = ''Shoot control plane is not running''\<rparr>],
      [ControlPlaneCheck])"
  (is "healthChecks ?env [?a, ?c, ?n, ?s] = _")
proof -
  have loop: "conditionsLoop [?a, ?c, ?n, ?s] (Condition_zero, Condition_zero, Condition_zero, Condition_zero)
        = (?a, ?c, ?n, ?s)"
    by (simp add: ShootAPIServerAvailable_def ShootControlPlaneHealthy_def ShootEveryNodeReady_def
        ShootSystemComponentsHealthy_def)
  have ext: "getAllExtensionConditions ?env = Inr ([], [], [])"
    by (simp add: getAllExtensionConditions_def)
  have cp: "checkControlPlane ?env ?c [] =
      (Some \<lparr>condition_Type = ''ControlPlaneHealthy'', condition_Status = ''True'',
        condition_Reason = ''ControlPlaneRunning'',
        condition_Message = ''All control plane components are healthy.''\<rparr>, None)"
    by (simp add: checkControlPlane_def ConditionTrue_def)
  show ?thesis
    using healthChecks_api_server_down [of ?env False None "[?a, ?c, ?n, ?s]" ?a ?c ?n ?s
        "''Shoot control plane is not running''" "[]", OF _ _ _ _ loop]
    by (simp add: ext cp)
qed

section \<open>Properties of the dependency graph tracker\<close>

lemma graph_vertices_addEdges:
  "graph_vertices (addEdges g es) = graph_vertices g \<union> fst ` set es \<union> snd ` set es"
  by (induction g es rule: addEdges.induct) (auto simp: addEdge_def)

lemma graph_edges_addEdges:
  "graph_edges (addEdges g es) = graph_edges g \<union> set es"
  by (induction g es rule: addEdges.induct) (auto simp: addEdge_def)

lemma references_shape:
  assumes "(a, b) \<in> set (references obj)"
  shows "(b = objectVertex obj \<and> vertexType a \<in> incomingTypes obj) \<or>
         (a = objectVertex obj \<and> vertexType b \<in> outgoingTypes obj)"
  using assms
  by (cases obj)
     (auto simp: vertexType_def secretVertex_def seedVertex_def split: option.splits)

lemma objectVertex_type_not_maintained:
  "vertexType (objectVertex obj) \<notin> incomingTypes obj"
  "vertexType (objectVertex obj) \<notin> outgoingTypes obj"
  by (cases obj; simp add: vertexType_def)+

lemma objectVertex_eq_types:
  assumes "objectVertex oldObj = objectVertex newObj"
  shows "incomingTypes oldObj = incomingTypes newObj" and "outgoingTypes oldObj = outgoingTypes newObj"
  using assms by (cases oldObj; cases newObj; simp)+

lemma references_touch_objectVertex:
  "(a, b) \<in> set (references obj) \<Longrightarrow> a = objectVertex obj \<or> b = objectVertex obj"
  using references_shape by blast

lemma graph_edges_handleCreateOrUpdate:
  "graph_edges (handleCreateOrUpdate g obj) =
     (graph_edges g - maintainedEdges g obj) \<union> set (references obj)"
  by (simp add: handleCreateOrUpdate_def graph_edges_addEdges removeEdges_def Let_def)

lemma graph_vertices_handleCreateOrUpdate:
  "fst ` set (references obj) \<union> snd ` set (references obj) \<subseteq> graph_vertices (handleCreateOrUpdate g obj)"
  by (auto simp: handleCreateOrUpdate_def graph_vertices_addEdges)

lemma objectVertex_deleted: "objectVertex obj \<notin> graph_vertices (handleDelete g obj)"
  by (simp add: handleDelete_def deleteVertex_def Let_def)

lemma graph_edges_handleDelete:
  "graph_edges (handleDelete g obj) =
     {e \<in> graph_edges g. fst e \<noteq> objectVertex obj \<and> snd e \<noteq> objectVertex obj}"
  by (auto simp: handleDelete_def deleteVertex_def removeEdges_def Let_def)

lemma reachStep_grows: "reached \<subseteq> (reachStep edges ^^ n) reached"
  by (induction n) (auto simp: reachStep_def)

lemma direct_edge_reached:
  assumes "(a, b) \<in> edges"
  shows "b \<in> (reachStep edges ^^ Suc n) {a}"
proof -
  have "a \<in> (reachStep edges ^^ n) {a}" using reachStep_grows [where reached = "{a}" and edges = edges and n = n] by simp
  with assms show ?thesis by (auto simp: reachStep_def)
qed

lemma reached_rtrancl:
  "v \<in> (reachStep edges ^^ n) reached \<Longrightarrow> \<exists>s \<in> reached. (s, v) \<in> edges\<^sup>*"
proof (induction n arbitrary: v)
  case 0
  then show ?case by auto
next
  case (Suc n)
  from Suc.prems have "v \<in> reachStep edges ((reachStep edges ^^ n) reached)" by simp
  then consider "v \<in> (reachStep edges ^^ n) reached"
    | u where "u \<in> (reachStep edges ^^ n) reached" "(u, v) \<in> edges"
    unfolding reachStep_def by blast
  then show ?case
  proof cases
    case 1
    then show ?thesis by (rule Suc.IH)
  next
    case 2
    from Suc.IH [OF 2(1)] obtain s where "s \<in> reached" "(s, u) \<in> edges\<^sup>*" by blast
    with 2(2) show ?thesis by (blast intro: rtrancl_into_rtrancl)
  qed
qed

lemma HasPathFrom_edge:
  assumes "(a, b) \<in> graph_edges g" and "a \<in> graph_vertices g" and "b \<in> graph_vertices g"
  shows "HasPathFrom g (fst a) (fst (snd a)) (snd (snd a)) (fst b) (fst (snd b)) (snd (snd b))"
  using assms direct_edge_reached [OF assms(1), of "card (graph_edges g)"]
  by (simp add: HasPathFrom_def Let_def del: funpow.simps)

lemma HasPathFrom_rtrancl:
  assumes "HasPathFrom g (fst a) (fst (snd a)) (snd (snd a)) (fst b) (fst (snd b)) (snd (snd b))"
  shows "(a, b) \<in> (graph_edges g)\<^sup>*"
  using assms
    reached_rtrancl [where v = b and edges = "graph_edges g" and n = "Suc (card (graph_edges g))"
      and reached = "{a}"]
  by (simp add: HasPathFrom_def Let_def del: funpow.simps)

lemma HasPathFrom_vertices:
  assumes "HasPathFrom g fromType fromNamespace fromName toType toNamespace toName"
  shows "(fromType, fromNamespace, fromName) \<in> graph_vertices g"
    and "(toType, toNamespace, toName) \<in> graph_vertices g"
  using assms by (simp_all add: HasPathFrom_def Let_def del: funpow.simps)

text \<open>In a graph whose edges are the references of one object, a path between the two ends of a reference of that object is an edge.\<close>

lemma star_path_is_edge:
  assumes shape: "\<And>a b. (a, b) \<in> edges \<Longrightarrow>
             (b = centre \<and> vertexType a \<in> ins) \<or> (a = centre \<and> vertexType b \<in> outs)"
    and centre: "vertexType centre \<notin> ins" "vertexType centre \<notin> outs"
    and ends: "(t = centre \<and> vertexType f \<in> ins) \<or> (f = centre \<and> vertexType t \<in> outs)"
    and path: "(f, t) \<in> edges\<^sup>*"
  shows "(f, t) \<in> edges"
proof -
  from ends centre have neq: "f \<noteq> t" by auto
  from ends show ?thesis
  proof
    assume e: "t = centre \<and> vertexType f \<in> ins"
    from path neq obtain z where "(f, z) \<in> edges" "(z, t) \<in> edges\<^sup>*"
      by (meson converse_rtranclE)
    with shape [of f z] e centre show ?thesis by auto
  next
    assume e: "f = centre \<and> vertexType t \<in> outs"
    from path neq obtain z where "(f, z) \<in> edges\<^sup>*" "(z, t) \<in> edges"
      by (meson rtranclE)
    with shape [of z t] e centre show ?thesis by auto
  qed
qed
lemma references_shape_pair:
  assumes "e \<in> set (references obj)"
  shows "(snd e = objectVertex obj \<and> vertexType (fst e) \<in> incomingTypes obj) \<or>
         (fst e = objectVertex obj \<and> vertexType (snd e) \<in> outgoingTypes obj)"
  using assms references_shape [of "fst e" "snd e" obj] by simp

lemma handleCreateOrUpdate_emptyGraph:
  "handleCreateOrUpdate emptyGraph obj =
     \<lparr>graph_vertices = fst ` set (references obj) \<union> snd ` set (references obj),
      graph_edges = set (references obj)\<rparr>"
proof -
  have "maintainedEdges emptyGraph obj = {}"
    by (simp add: maintainedEdges_def emptyGraph_def)
  then have "removeEdges emptyGraph (maintainedEdges emptyGraph obj) = emptyGraph"
    by (simp add: removeEdges_def emptyGraph_def)
  then show ?thesis
    by (simp add: handleCreateOrUpdate_def graph_vertices_addEdges graph_edges_addEdges emptyGraph_def)
qed

lemma maintainedEdges_object_graph:
  assumes "objectVertex oldObj = objectVertex newObj"
  shows "maintainedEdges
           \<lparr>graph_vertices = vs, graph_edges = set (references oldObj)\<rparr> newObj
         = set (references oldObj)"
proof -
  have "(snd e = objectVertex newObj \<and> vertexType (fst e) \<in> incomingTypes newObj) \<or>
        (fst e = objectVertex newObj \<and> vertexType (snd e) \<in> outgoingTypes newObj)"
    if "e \<in> set (references oldObj)" for e
    using references_shape_pair [OF that] objectVertex_eq_types [OF assms] assms by simp
  then show ?thesis
    unfolding maintainedEdges_def by simp blast
qed

lemma removeEdges_all:
  "removeEdges \<lparr>graph_vertices = fst ` es \<union> snd ` es, graph_edges = es\<rparr> es = emptyGraph"
  by (auto simp: removeEdges_def emptyGraph_def hasEdge_def)

lemma handleCreateOrUpdate_twice:
  assumes "objectVertex oldObj = objectVertex newObj"
  shows "handleCreateOrUpdate (handleCreateOrUpdate emptyGraph oldObj) newObj =
         handleCreateOrUpdate emptyGraph newObj"
proof -
  let ?g = "handleCreateOrUpdate emptyGraph oldObj"
  have "removeEdges ?g (maintainedEdges ?g newObj) = emptyGraph"
    unfolding handleCreateOrUpdate_emptyGraph maintainedEdges_object_graph [OF assms]
    by (rule removeEdges_all)
  moreover have "removeEdges emptyGraph (maintainedEdges emptyGraph newObj) = emptyGraph"
    by (simp add: removeEdges_def emptyGraph_def maintainedEdges_def)
  ultimately show ?thesis
    by (simp add: handleCreateOrUpdate_def)
qed

lemma handleDelete_after_add:
  "handleDelete (handleCreateOrUpdate emptyGraph obj) obj = emptyGraph"
proof -
  have all: "{e \<in> set (references obj). fst e = objectVertex obj \<or> snd e = objectVertex obj}
             = set (references obj)"
    using references_shape_pair [of _ obj] by blast
  show ?thesis
    unfolding handleDelete_def deleteVertex_def handleCreateOrUpdate_emptyGraph
    by (simp add: all removeEdges_all emptyGraph_def)
qed

lemma HasPathFrom_reference:
  assumes "((fromType, fromNamespace, fromName), (toType, toNamespace, toName)) \<in> set (references obj)"
  shows "HasPathFrom (handleCreateOrUpdate g obj) fromType fromNamespace fromName toType toNamespace toName"
proof -
  let ?a = "(fromType, fromNamespace, fromName)" and ?b = "(toType, toNamespace, toName)"
  have "(?a, ?b) \<in> graph_edges (handleCreateOrUpdate g obj)"
    using assms by (simp add: graph_edges_handleCreateOrUpdate)
  moreover have "?a \<in> graph_vertices (handleCreateOrUpdate g obj)"
    and "?b \<in> graph_vertices (handleCreateOrUpdate g obj)"
    using assms graph_vertices_handleCreateOrUpdate [of obj g] by force+
  ultimately show ?thesis
    using HasPathFrom_edge [of ?a ?b "handleCreateOrUpdate g obj"] by simp
qed

lemma old_reference_removed:
  assumes "objectVertex oldObj = objectVertex newObj"
    and "e \<in> set (references oldObj)" and "e \<notin> set (references newObj)"
  shows "e \<notin> graph_edges (handleCreateOrUpdate g newObj)"
proof -
  obtain a b where e: "e = (a, b)" by (cases e)
  from references_shape [of a b oldObj] assms(2) e objectVertex_eq_types [OF assms(1)] assms(1)
  have "(b = objectVertex newObj \<and> vertexType a \<in> incomingTypes newObj) \<or>
        (a = objectVertex newObj \<and> vertexType b \<in> outgoingTypes newObj)"
    by auto
  then have "e \<in> graph_edges g \<Longrightarrow> e \<in> maintainedEdges g newObj"
    by (auto simp: maintainedEdges_def e)
  with assms(3) show ?thesis
    by (auto simp: graph_edges_handleCreateOrUpdate)
qed

lemma HasPathFrom_object_graph:
  assumes same: "objectVertex oldObj = objectVertex newObj"
    and old: "((fromType, fromNamespace, fromName), (toType, toNamespace, toName)) \<in> set (references oldObj)"
    and path: "HasPathFrom (handleCreateOrUpdate emptyGraph newObj)
                 fromType fromNamespace fromName toType toNamespace toName"
  shows "((fromType, fromNamespace, fromName), (toType, toNamespace, toName)) \<in> set (references newObj)"
proof -
  let ?a = "(fromType, fromNamespace, fromName)" and ?b = "(toType, toNamespace, toName)"
  from HasPathFrom_rtrancl [of "handleCreateOrUpdate emptyGraph newObj" ?a ?b] path
  have star: "(?a, ?b) \<in> (set (references newObj))\<^sup>*"
    by (simp add: handleCreateOrUpdate_emptyGraph)
  from references_shape [OF old] same objectVertex_eq_types [OF same]
  have ends: "(?b = objectVertex newObj \<and> vertexType ?a \<in> incomingTypes newObj) \<or>
              (?a = objectVertex newObj \<and> vertexType ?b \<in> outgoingTypes newObj)"
    by auto
  show ?thesis
    by (rule star_path_is_edge [where centre = "objectVertex newObj"
          and ins = "incomingTypes newObj" and outs = "outgoingTypes newObj"])
       (use references_shape objectVertex_type_not_maintained ends star in blast)+
qed

lemma handleCreateOrUpdate_unchanged:
  assumes same: "objectVertex oldObj = objectVertex newObj"
    and refs: "set (references oldObj) = set (references newObj)"
    and edges: "maintainedEdges g oldObj = set (references oldObj)"
    and vertices: "fst ` set (references oldObj) \<union> snd ` set (references oldObj) \<subseteq> graph_vertices g"
  shows "handleCreateOrUpdate g newObj = g"
proof -
  have m: "maintainedEdges g newObj = set (references newObj)"
    using edges refs objectVertex_eq_types [OF same] same by (simp add: maintainedEdges_def)
  have sub: "set (references newObj) \<subseteq> graph_edges g"
    using m by (auto simp: maintainedEdges_def)
  have e: "graph_edges (handleCreateOrUpdate g newObj) = graph_edges g"
    using sub by (auto simp: graph_edges_handleCreateOrUpdate m)
  have v: "graph_vertices (handleCreateOrUpdate g newObj) = graph_vertices g"
    using vertices refs sub
    by (auto simp: handleCreateOrUpdate_def graph_vertices_addEdges removeEdges_def Let_def m)
  from e v show ?thesis by simp
qed
text \<open>
  On a graph with finitely many edges the bounded search of \<open>HasPathFrom\<close> is reachability:
  the rounds grow the reached set until it is closed under the edges, which happens
  within as many rounds as there are edges.
\<close>

lemma reachStep_apply: "reachStep edges reached = reached \<union> edges `` reached"
  by (simp add: reachStep_def)

lemma reachStep_Suc:
  "(reachStep edges ^^ Suc n) reached =
     (reachStep edges ^^ n) reached \<union> edges `` ((reachStep edges ^^ n) reached)"
  by (simp add: reachStep_apply)

lemma reachStep_bound:
  "(reachStep edges ^^ n) {a} \<subseteq> insert a (snd ` edges)"
proof (induction n)
  case 0
  show ?case by simp
next
  case (Suc n)
  have "edges `` ((reachStep edges ^^ n) {a}) \<subseteq> snd ` edges" by force
  with Suc show ?case unfolding reachStep_Suc by blast
qed

lemma reachStep_closed_stays:
  assumes "reachStep edges ((reachStep edges ^^ j) S) = (reachStep edges ^^ j) S"
  shows "(reachStep edges ^^ (j + m)) S = (reachStep edges ^^ j) S"
proof (induction m)
  case 0
  show ?case by simp
next
  case (Suc m)
  have "(reachStep edges ^^ (j + Suc m)) S = reachStep edges ((reachStep edges ^^ (j + m)) S)"
    by simp
  with Suc assms show ?case by simp
qed

lemma reachStep_card_grows:
  assumes fin: "finite edges"
    and strict: "\<And>j. j < k \<Longrightarrow> (reachStep edges ^^ Suc j) {a} \<noteq> (reachStep edges ^^ j) {a}"
  shows "Suc k \<le> card ((reachStep edges ^^ k) {a})"
  using strict
proof (induction k)
  case 0
  show ?case by simp
next
  case (Suc k)
  have finS: "finite ((reachStep edges ^^ Suc k) {a})"
    using fin reachStep_bound [where edges = edges and n = "Suc k" and a = a]
    by (meson finite_imageI finite_insert finite_subset)
  have sub: "(reachStep edges ^^ k) {a} \<subseteq> (reachStep edges ^^ Suc k) {a}"
    unfolding reachStep_Suc by blast
  have "(reachStep edges ^^ Suc k) {a} \<noteq> (reachStep edges ^^ k) {a}"
    using Suc.prems [of k] by simp
  with sub have "(reachStep edges ^^ k) {a} \<subset> (reachStep edges ^^ Suc k) {a}" by blast
  from psubset_card_mono [OF finS this] Suc.IH Suc.prems
  show ?case by fastforce
qed

lemma reachStep_closed_within:
  assumes fin: "finite edges"
  shows "\<exists>j \<le> card edges. reachStep edges ((reachStep edges ^^ j) {a}) = (reachStep edges ^^ j) {a}"
proof (rule ccontr)
  assume "\<not> ?thesis"
  then have strict: "\<And>j. j < Suc (card edges) \<Longrightarrow>
      (reachStep edges ^^ Suc j) {a} \<noteq> (reachStep edges ^^ j) {a}"
    by auto
  from reachStep_card_grows [OF fin strict]
  have low: "Suc (Suc (card edges)) \<le> card ((reachStep edges ^^ Suc (card edges)) {a})" by blast
  have "card ((reachStep edges ^^ Suc (card edges)) {a}) \<le> card (insert a (snd ` edges))"
    using fin by (intro card_mono reachStep_bound) simp
  also have "\<dots> \<le> Suc (card (snd ` edges))" by (simp add: card_insert_if fin)
  also have "\<dots> \<le> Suc (card edges)" by (simp add: card_image_le fin)
  finally show False using low by simp
qed

lemma rtrancl_reached:
  assumes fin: "finite edges" and path: "(a, b) \<in> edges\<^sup>*"
  shows "b \<in> (reachStep edges ^^ Suc (card edges)) {a}"
proof -
  from reachStep_closed_within [OF fin, where a = a] obtain j where
    j: "j \<le> card edges"
    and closed: "reachStep edges ((reachStep edges ^^ j) {a}) = (reachStep edges ^^ j) {a}"
    by blast
  have a: "a \<in> (reachStep edges ^^ j) {a}"
    using reachStep_grows [where reached = "{a}" and edges = edges and n = j] by simp
  from path have "b \<in> (reachStep edges ^^ j) {a}"
  proof (induction rule: rtrancl_induct)
    case base
    show ?case by (rule a)
  next
    case (step y z)
    then have "z \<in> reachStep edges ((reachStep edges ^^ j) {a})"
      unfolding reachStep_apply by blast
    with closed show ?case by simp
  qed
  moreover from j obtain m where "Suc (card edges) = j + m"
    by (metis le_Suc_eq le_iff_add)
  ultimately show ?thesis
    using reachStep_closed_stays [OF closed, where m = m] by simp
qed

lemma HasPathFrom_iff_reachable:
  assumes "finite (graph_edges g)"
  shows "HasPathFrom g fromType fromNamespace fromName toType toNamespace toName \<longleftrightarrow>
     (fromType, fromNamespace, fromName) \<in> graph_vertices g \<and>
     (toType, toNamespace, toName) \<in> graph_vertices g \<and>
     ((fromType, fromNamespace, fromName), (toType, toNamespace, toName)) \<in> (graph_edges g)\<^sup>*"
proof
  assume path: "HasPathFrom g fromType fromNamespace fromName toType toNamespace toName"
  from HasPathFrom_vertices [OF path]
    HasPathFrom_rtrancl [of g "(fromType, fromNamespace, fromName)" "(toType, toNamespace, toName)"] path
  show "(fromType, fromNamespace, fromName) \<in> graph_vertices g \<and>
     (toType, toNamespace, toName) \<in> graph_vertices g \<and>
     ((fromType, fromNamespace, fromName), (toType, toNamespace, toName)) \<in> (graph_edges g)\<^sup>*"
    by simp
next
  assume "(fromType, fromNamespace, fromName) \<in> graph_vertices g \<and>
     (toType, toNamespace, toName) \<in> graph_vertices g \<and>
     ((fromType, fromNamespace, fromName), (toType, toNamespace, toName)) \<in> (graph_edges g)\<^sup>*"
  then show "HasPathFrom g fromType fromNamespace fromName toType toNamespace toName"
    using rtrancl_reached [OF assms, where a = "(fromType, fromNamespace, fromName)"
        and b = "(toType, toNamespace, toName)"]
    by (simp add: HasPathFrom_def Let_def del: funpow.simps)
qed

text \<open>
  The model against the expectations of the test in the sources: a seed with a secret and
  a backup secret gives three nodes and two edges; the shoot of the test gives nine nodes
  and eight edges, its first resource (not a secret) giving none.
\<close>

lemma graph_test_seed_add:
  "card (graph_vertices (handleEvent emptyGraph
      (Add (SeedObject \<lparr>seed_Name = ''seed1'',
              seed_SecretRef = Some \<lparr>secretRef_Namespace = ''foo'', secretRef_Name = ''bar''\<rparr>,
              seed_Backup = Some \<lparr>secretRef_Namespace = ''bar'', secretRef_Name = ''baz''\<rparr>\<rparr>)))) = 3 \<and>
   card (graph_edges (handleEvent emptyGraph
      (Add (SeedObject \<lparr>seed_Name = ''seed1'',
              seed_SecretRef = Some \<lparr>secretRef_Namespace = ''foo'', secretRef_Name = ''bar''\<rparr>,
              seed_Backup = Some \<lparr>secretRef_Namespace = ''bar'', secretRef_Name = ''baz''\<rparr>\<rparr>)))) = 2"
  by (simp add: handleCreateOrUpdate_emptyGraph secretVertex_def card_insert_if)

lemma graph_test_shoot_add:
  "card (graph_vertices (handleEvent emptyGraph
      (Add (ShootObject \<lparr>shoot_Namespace = ''namespace1'', shoot_Name = ''shoot1'',
              shoot_CloudProfileName = ''cloudprofile1'', shoot_SecretBindingName = ''secretbinding1'',
              shoot_SpecSeedName = Some ''seed1'', shoot_StatusSeedName = None,
              shoot_KubeAPIServer = Some (Some ''auditpolicy1''),
              shoot_DNS = Some [Some ''dnssecret1'', Some ''dnssecret2''],
              shoot_Resources =
                [\<lparr>resourceRef_APIVersion = ''foo'', resourceRef_Kind = ''bar'', resourceRef_Name = ''resource1''\<rparr>,
                 \<lparr>resourceRef_APIVersion = ''v1'', resourceRef_Kind = ''Secret'', resourceRef_Name = ''resource2''\<rparr>]\<rparr>)))) = 9 \<and>
   card (graph_edges (handleEvent emptyGraph
      (Add (ShootObject \<lparr>shoot_Namespace = ''namespace1'', shoot_Name = ''shoot1'',
              shoot_CloudProfileName = ''cloudprofile1'', shoot_SecretBindingName = ''secretbinding1'',
              shoot_SpecSeedName = Some ''seed1'', shoot_StatusSeedName = None,
              shoot_KubeAPIServer = Some (Some ''auditpolicy1''),
              shoot_DNS = Some [Some ''dnssecret1'', Some ''dnssecret2''],
              shoot_Resources =
                [\<lparr>resourceRef_APIVersion = ''foo'', resourceRef_Kind = ''bar'', resourceRef_Name = ''resource1''\<rparr>,
                 \<lparr>resourceRef_APIVersion = ''v1'', resourceRef_Kind = ''Secret'', resourceRef_Name = ''resource2''\<rparr>]\<rparr>)))) = 8"
  by (simp add: handleCreateOrUpdate_emptyGraph seedVertex_def card_insert_if)

text \<open>
  Claim C1 (graph tracker, delete). For every watched object and every graph, after the
  delete event of the object: \<open>HasPathFrom\<close> is false for each of its references; its
  vertex is gone and none of its edges is left. After the add event of an object on the
  empty graph and its delete event, the graph is empty: zero nodes and zero edges.
\<close>

theorem graph_delete_removes_object:
  "(\<forall>fromType fromNamespace fromName toType toNamespace toName.
      ((fromType, fromNamespace, fromName), (toType, toNamespace, toName)) \<in> set (references obj) \<longrightarrow>
      \<not> HasPathFrom (handleEvent g (Delete obj))
          fromType fromNamespace fromName toType toNamespace toName) \<and>
   objectVertex obj \<notin> graph_vertices (handleEvent g (Delete obj)) \<and>
   graph_edges (handleEvent g (Delete obj)) \<inter> set (references obj) = {} \<and>
   handleEvent (handleEvent emptyGraph (Add obj)) (Delete obj) = emptyGraph \<and>
   card (graph_vertices (handleEvent (handleEvent emptyGraph (Add obj)) (Delete obj))) = 0 \<and>
   card (graph_edges (handleEvent (handleEvent emptyGraph (Add obj)) (Delete obj))) = 0"
proof (intro conjI allI impI)
  fix fromType fromNamespace fromName toType toNamespace toName
  assume ref: "((fromType, fromNamespace, fromName), (toType, toNamespace, toName)) \<in> set (references obj)"
  show "\<not> HasPathFrom (handleEvent g (Delete obj)) fromType fromNamespace fromName toType toNamespace toName"
  proof
    assume path: "HasPathFrom (handleEvent g (Delete obj))
                    fromType fromNamespace fromName toType toNamespace toName"
    from references_touch_objectVertex [OF ref]
    have "objectVertex obj \<in> graph_vertices (handleEvent g (Delete obj))"
      using HasPathFrom_vertices [OF path] by auto
    then show False using objectVertex_deleted [of obj g] by simp
  qed
next
  show "objectVertex obj \<notin> graph_vertices (handleEvent g (Delete obj))"
    using objectVertex_deleted [of obj g] by simp
next
  have "graph_edges (handleEvent g (Delete obj)) =
          {e \<in> graph_edges g. fst e \<noteq> objectVertex obj \<and> snd e \<noteq> objectVertex obj}"
    by (simp add: graph_edges_handleDelete)
  then show "graph_edges (handleEvent g (Delete obj)) \<inter> set (references obj) = {}"
    using references_shape_pair [of _ obj] by blast
next
  show empty: "handleEvent (handleEvent emptyGraph (Add obj)) (Delete obj) = emptyGraph"
    by (simp add: handleDelete_after_add)
  show "card (graph_vertices (handleEvent (handleEvent emptyGraph (Add obj)) (Delete obj))) = 0"
    unfolding empty by (simp add: emptyGraph_def)
  show "card (graph_edges (handleEvent (handleEvent emptyGraph (Add obj)) (Delete obj))) = 0"
    unfolding empty by (simp add: emptyGraph_def)
qed

theorem graph_delete_removes_object_witness:
  "\<not> HasPathFrom
       (handleEvent
          (handleEvent emptyGraph
             (Add (SeedObject \<lparr>seed_Name = ''seed1'',
                     seed_SecretRef = Some \<lparr>secretRef_Namespace = ''foo'', secretRef_Name = ''bar''\<rparr>,
                     seed_Backup = Some \<lparr>secretRef_Namespace = ''bar'', secretRef_Name = ''baz''\<rparr>\<rparr>)))
          (Delete (SeedObject \<lparr>seed_Name = ''seed1'',
                     seed_SecretRef = Some \<lparr>secretRef_Namespace = ''foo'', secretRef_Name = ''bar''\<rparr>,
                     seed_Backup = Some \<lparr>secretRef_Namespace = ''bar'', secretRef_Name = ''baz''\<rparr>\<rparr>)))
       VertexTypeSecret ''foo'' ''bar'' VertexTypeSeed [] ''seed1'' \<and>
   card (graph_vertices
       (handleEvent
          (handleEvent emptyGraph
             (Add (SeedObject \<lparr>seed_Name = ''seed1'',
                     seed_SecretRef = Some \<lparr>secretRef_Namespace = ''foo'', secretRef_Name = ''bar''\<rparr>,
                     seed_Backup = Some \<lparr>secretRef_Namespace = ''bar'', secretRef_Name = ''baz''\<rparr>\<rparr>)))
          (Delete (SeedObject \<lparr>seed_Name = ''seed1'',
                     seed_SecretRef = Some \<lparr>secretRef_Namespace = ''foo'', secretRef_Name = ''bar''\<rparr>,
                     seed_Backup = Some \<lparr>secretRef_Namespace = ''bar'', secretRef_Name = ''baz''\<rparr>\<rparr>)))) = 0"
  (is "\<not> HasPathFrom (handleEvent ?g (Delete ?seed)) _ _ _ _ _ _ \<and> _")
proof -
  have ref: "((VertexTypeSecret, ''foo'', ''bar''), (VertexTypeSeed, [], ''seed1'')) \<in> set (references ?seed)"
    by (simp add: secretVertex_def)
  note del = graph_delete_removes_object [of ?seed emptyGraph]
  have g: "handleEvent ?g (Delete ?seed) = emptyGraph"
    by (rule del [THEN conjunct2, THEN conjunct2, THEN conjunct2, THEN conjunct1])
  have "\<not> HasPathFrom (handleEvent ?g (Delete ?seed)) VertexTypeSecret ''foo'' ''bar'' VertexTypeSeed [] ''seed1''"
    by (rule graph_delete_removes_object [of ?seed ?g, THEN conjunct1, rule_format, OF ref])
  moreover have "card (graph_vertices (handleEvent ?g (Delete ?seed))) = 0"
    unfolding g by (simp add: emptyGraph_def)
  ultimately show ?thesis by (rule conjI)
qed

text \<open>
  Claim C2 as the spec states it fails where the new version still refers to the old
  referent through another field. The shoot below is tracked alone; its update changes
  \<open>spec.seedName\<close> from \<open>seed1\<close> to \<open>seed2\<close> while \<open>status.seedName\<close> stays \<open>seed1\<close>, and
  \<open>HasPathFrom\<close> from the shoot to the seed \<open>seed1\<close> is still true afterwards.
\<close>

theorem graph_update_old_referent_counterexample:
  "HasPathFrom
     (handleEvent
        (handleEvent emptyGraph
           (Add (ShootObject \<lparr>shoot_Namespace = ''namespace1'', shoot_Name = ''shoot1'',
                   shoot_CloudProfileName = ''cloudprofile1'', shoot_SecretBindingName = ''secretbinding1'',
                   shoot_SpecSeedName = Some ''seed1'', shoot_StatusSeedName = Some ''seed1'',
                   shoot_KubeAPIServer = None, shoot_DNS = None, shoot_Resources = []\<rparr>)))
        (Update
           (ShootObject \<lparr>shoot_Namespace = ''namespace1'', shoot_Name = ''shoot1'',
                   shoot_CloudProfileName = ''cloudprofile1'', shoot_SecretBindingName = ''secretbinding1'',
                   shoot_SpecSeedName = Some ''seed1'', shoot_StatusSeedName = Some ''seed1'',
                   shoot_KubeAPIServer = None, shoot_DNS = None, shoot_Resources = []\<rparr>)
           (ShootObject \<lparr>shoot_Namespace = ''namespace1'', shoot_Name = ''shoot1'',
                   shoot_CloudProfileName = ''cloudprofile1'', shoot_SecretBindingName = ''secretbinding1'',
                   shoot_SpecSeedName = Some ''seed2'', shoot_StatusSeedName = Some ''seed1'',
                   shoot_KubeAPIServer = None, shoot_DNS = None, shoot_Resources = []\<rparr>)))
     VertexTypeShoot ''namespace1'' ''shoot1'' VertexTypeSeed [] ''seed1''"
  by (simp add: HasPathFrom_reference seedVertex_def)

text \<open>
  Claim C2, amended. For an update event from an old to a new version of the same object
  (same vertex), on any graph: \<open>HasPathFrom\<close> is true for every reference of the new
  version, and the edge of every reference that only the old version has is gone. An
  update that changes no reference, on a graph that holds the edges and vertices of the
  object's references, leaves the graph as it is, and so its node and edge counts. Where
  the object is tracked alone (added to the empty graph), the graph after the update is
  the graph of the new version added alone: its edges are the references of the new
  version and its vertices are their ends, so a reference that is removed takes its edge
  and the vertices left without an edge with it; and there \<open>HasPathFrom\<close> is true for a
  reference of the old version exactly when it is a reference of the new version as well.
\<close>

theorem graph_update_reflects_new_version:
  assumes "objectVertex oldObj = objectVertex newObj"
  shows
  "(\<forall>fromType fromNamespace fromName toType toNamespace toName.
      ((fromType, fromNamespace, fromName), (toType, toNamespace, toName)) \<in> set (references newObj) \<longrightarrow>
      HasPathFrom (handleEvent g (Update oldObj newObj))
        fromType fromNamespace fromName toType toNamespace toName) \<and>
   (\<forall>e. e \<in> set (references oldObj) \<and> e \<notin> set (references newObj) \<longrightarrow>
      e \<notin> graph_edges (handleEvent g (Update oldObj newObj))) \<and>
   (set (references oldObj) = set (references newObj) \<and>
    maintainedEdges g oldObj = set (references oldObj) \<and>
    fst ` set (references oldObj) \<union> snd ` set (references oldObj) \<subseteq> graph_vertices g \<longrightarrow>
      handleEvent g (Update oldObj newObj) = g) \<and>
   handleEvent (handleEvent emptyGraph (Add oldObj)) (Update oldObj newObj) =
     handleEvent emptyGraph (Add newObj) \<and>
   graph_edges (handleEvent emptyGraph (Add newObj)) = set (references newObj) \<and>
   graph_vertices (handleEvent emptyGraph (Add newObj)) =
     fst ` set (references newObj) \<union> snd ` set (references newObj) \<and>
   (\<forall>fromType fromNamespace fromName toType toNamespace toName.
      ((fromType, fromNamespace, fromName), (toType, toNamespace, toName)) \<in> set (references oldObj) \<longrightarrow>
      HasPathFrom (handleEvent (handleEvent emptyGraph (Add oldObj)) (Update oldObj newObj))
        fromType fromNamespace fromName toType toNamespace toName =
      (((fromType, fromNamespace, fromName), (toType, toNamespace, toName)) \<in> set (references newObj)))"
proof (intro conjI allI impI)
  fix fromType fromNamespace fromName toType toNamespace toName
  assume "((fromType, fromNamespace, fromName), (toType, toNamespace, toName)) \<in> set (references newObj)"
  then show "HasPathFrom (handleEvent g (Update oldObj newObj))
               fromType fromNamespace fromName toType toNamespace toName"
    by (simp add: HasPathFrom_reference)
next
  fix e
  assume "e \<in> set (references oldObj) \<and> e \<notin> set (references newObj)"
  then show "e \<notin> graph_edges (handleEvent g (Update oldObj newObj))"
    using old_reference_removed [OF assms] by simp
next
  assume h: "set (references oldObj) = set (references newObj) \<and>
          maintainedEdges g oldObj = set (references oldObj) \<and>
          fst ` set (references oldObj) \<union> snd ` set (references oldObj) \<subseteq> graph_vertices g"
  have "handleCreateOrUpdate g newObj = g"
    by (rule handleCreateOrUpdate_unchanged [OF assms]) (use h in blast)+
  then show "handleEvent g (Update oldObj newObj) = g" by simp
next
  show "handleEvent (handleEvent emptyGraph (Add oldObj)) (Update oldObj newObj) =
          handleEvent emptyGraph (Add newObj)"
    by (simp add: handleCreateOrUpdate_twice [OF assms])
next
  show "graph_edges (handleEvent emptyGraph (Add newObj)) = set (references newObj)"
    by (simp add: handleCreateOrUpdate_emptyGraph)
next
  show "graph_vertices (handleEvent emptyGraph (Add newObj)) =
          fst ` set (references newObj) \<union> snd ` set (references newObj)"
    by (simp add: handleCreateOrUpdate_emptyGraph)
next
  fix fromType fromNamespace fromName toType toNamespace toName
  assume old: "((fromType, fromNamespace, fromName), (toType, toNamespace, toName)) \<in> set (references oldObj)"
  show "HasPathFrom (handleEvent (handleEvent emptyGraph (Add oldObj)) (Update oldObj newObj))
          fromType fromNamespace fromName toType toNamespace toName =
        (((fromType, fromNamespace, fromName), (toType, toNamespace, toName)) \<in> set (references newObj))"
    using HasPathFrom_object_graph [OF assms old] HasPathFrom_reference [of _ _ _ _ _ _ newObj emptyGraph]
    by (auto simp: handleCreateOrUpdate_twice [OF assms])
qed

theorem graph_update_reflects_new_version_witness:
  "HasPathFrom
     (handleEvent
        (handleEvent emptyGraph
           (Add (SeedObject \<lparr>seed_Name = ''seed1'',
                   seed_SecretRef = Some \<lparr>secretRef_Namespace = ''foo'', secretRef_Name = ''bar''\<rparr>,
                   seed_Backup = Some \<lparr>secretRef_Namespace = ''bar'', secretRef_Name = ''baz''\<rparr>\<rparr>)))
        (Update
           (SeedObject \<lparr>seed_Name = ''seed1'',
                   seed_SecretRef = Some \<lparr>secretRef_Namespace = ''foo'', secretRef_Name = ''bar''\<rparr>,
                   seed_Backup = Some \<lparr>secretRef_Namespace = ''bar'', secretRef_Name = ''baz''\<rparr>\<rparr>)
           (SeedObject \<lparr>seed_Name = ''seed1'', seed_SecretRef = None,
                   seed_Backup = Some \<lparr>secretRef_Namespace = ''bar'', secretRef_Name = ''baz''\<rparr>\<rparr>)))
     VertexTypeSecret ''bar'' ''baz'' VertexTypeSeed [] ''seed1'' \<and>
   \<not> HasPathFrom
     (handleEvent
        (handleEvent emptyGraph
           (Add (SeedObject \<lparr>seed_Name = ''seed1'',
                   seed_SecretRef = Some \<lparr>secretRef_Namespace = ''foo'', secretRef_Name = ''bar''\<rparr>,
                   seed_Backup = Some \<lparr>secretRef_Namespace = ''bar'', secretRef_Name = ''baz''\<rparr>\<rparr>)))
        (Update
           (SeedObject \<lparr>seed_Name = ''seed1'',
                   seed_SecretRef = Some \<lparr>secretRef_Namespace = ''foo'', secretRef_Name = ''bar''\<rparr>,
                   seed_Backup = Some \<lparr>secretRef_Namespace = ''bar'', secretRef_Name = ''baz''\<rparr>\<rparr>)
           (SeedObject \<lparr>seed_Name = ''seed1'', seed_SecretRef = None,
                   seed_Backup = Some \<lparr>secretRef_Namespace = ''bar'', secretRef_Name = ''baz''\<rparr>\<rparr>)))
     VertexTypeSecret ''foo'' ''bar'' VertexTypeSeed [] ''seed1''"
  (is "HasPathFrom (handleEvent ?g (Update ?old ?new)) _ _ _ _ _ _ \<and> _")
proof -
  have same: "objectVertex ?old = objectVertex ?new" by simp
  have new: "((VertexTypeSecret, ''bar'', ''baz''), (VertexTypeSeed, [], ''seed1'')) \<in> set (references ?new)"
    by (simp add: secretVertex_def)
  have old: "((VertexTypeSecret, ''foo'', ''bar''), (VertexTypeSeed, [], ''seed1'')) \<in> set (references ?old)"
    by (simp add: secretVertex_def)
  have gone: "((VertexTypeSecret, ''foo'', ''bar''), (VertexTypeSeed, [], ''seed1'')) \<notin> set (references ?new)"
    by (simp add: secretVertex_def)
  have "HasPathFrom (handleEvent ?g (Update ?old ?new)) VertexTypeSecret ''bar'' ''baz'' VertexTypeSeed [] ''seed1''"
    by (rule graph_update_reflects_new_version [OF same, of ?g, THEN conjunct1, rule_format, OF new])
  moreover have "HasPathFrom (handleEvent ?g (Update ?old ?new)) VertexTypeSecret ''foo'' ''bar'' VertexTypeSeed [] ''seed1''
      = (((VertexTypeSecret, ''foo'', ''bar''), (VertexTypeSeed, [], ''seed1'')) \<in> set (references ?new))"
    by (rule graph_update_reflects_new_version [OF same, of emptyGraph, THEN conjunct2, THEN conjunct2,
          THEN conjunct2, THEN conjunct2, THEN conjunct2, THEN conjunct2, rule_format, OF old])
  then have "\<not> HasPathFrom (handleEvent ?g (Update ?old ?new)) VertexTypeSecret ''foo'' ''bar'' VertexTypeSeed [] ''seed1''"
    using gone by (rule_tac notI) (drule (1) iffD1, erule notE)
  ultimately show ?thesis by (rule conjI)
qed

section \<open>Properties of the SeedRestriction admission webhook\<close>

lemma not_in_seeds_group_not_seed:
  "SeedsGroup \<notin> set (user_Groups userInfo) \<Longrightarrow> \<not> snd (FromAuthenticationV1UserInfo userInfo)"
  by (simp add: FromAuthenticationV1UserInfo_def)

lemma no_resource_not_handled: "([], []) \<notin> handledResources"
  by (simp add: handledResources_def backupBucketResource_def backupEntryResource_def
      bastionResource_def certificateSigningRequestResource_def leaseResource_def seedResource_def
      shootExtensionStatusResource_def shootStateResource_def)

text \<open>
  Claim C3 (SeedRestriction Handle, no opinion). When the user of the request is not in
  the seeds group, or is not a seed user, or the request carries no resource (the group
  and the resource are empty), or the group and resource are not one of the handled
  pairs, \<open>Handle\<close> answers allowed with result code 200.
\<close>

theorem Handle_no_opinion:
  assumes "SeedsGroup \<notin> set (user_Groups (request_UserInfo request)) \<or>
           \<not> snd (FromAuthenticationV1UserInfo (request_UserInfo request)) \<or>
           (gvr_Group (request_Resource request) = [] \<and> gvr_Resource (request_Resource request) = []) \<or>
           (gvr_Group (request_Resource request), gvr_Resource (request_Resource request)) \<notin> handledResources"
  shows "Handle env request = \<lparr>response_Allowed = True, response_Code = 200, response_Message = []\<rparr>"
proof -
  obtain seedName isSeed where
    identity: "FromAuthenticationV1UserInfo (request_UserInfo request) = (seedName, isSeed)"
    by (cases "FromAuthenticationV1UserInfo (request_UserInfo request)")
  show ?thesis
  proof (cases isSeed)
    case False
    with identity show ?thesis
      by (simp add: Handle_def Allowed_def StatusOK_def)
  next
    case True
    with identity assms not_in_seeds_group_not_seed [of "request_UserInfo request"]
      no_resource_not_handled
    have "(gvr_Group (request_Resource request), gvr_Resource (request_Resource request))
            \<notin> handledResources"
      by auto
    with identity show ?thesis
      by (simp add: Handle_def Allowed_def StatusOK_def handledResources_def Let_def)
  qed
qed

theorem Handle_no_opinion_witness:
  "Handle
     \<lparr>admitBackupBucket = (\<lambda>seedName request. \<lparr>response_Allowed = False, response_Code = 403, response_Message = ''forbidden''\<rparr>),
      admitBackupEntry = (\<lambda>seedName request. \<lparr>response_Allowed = False, response_Code = 403, response_Message = ''forbidden''\<rparr>),
      admitBastion = (\<lambda>seedName request. \<lparr>response_Allowed = False, response_Code = 403, response_Message = ''forbidden''\<rparr>),
      admitCertificateSigningRequest = (\<lambda>seedName request. \<lparr>response_Allowed = False, response_Code = 403, response_Message = ''forbidden''\<rparr>),
      admitLease = (\<lambda>seedName request. \<lparr>response_Allowed = False, response_Code = 403, response_Message = ''forbidden''\<rparr>),
      admitSeed = (\<lambda>seedName request. \<lparr>response_Allowed = False, response_Code = 403, response_Message = ''forbidden''\<rparr>),
      admitShootExtensionStatus = (\<lambda>seedName request. \<lparr>response_Allowed = False, response_Code = 403, response_Message = ''forbidden''\<rparr>),
      admitShootState = (\<lambda>seedName request. \<lparr>response_Allowed = False, response_Code = 403, response_Message = ''forbidden''\<rparr>)\<rparr>
     \<lparr>request_UserInfo = \<lparr>user_Username = ''foo'', user_Groups = []\<rparr>,
      request_Resource = \<lparr>gvr_Group = ''core.gardener.cloud'', gvr_Version = ''v1beta1'', gvr_Resource = ''backupbuckets''\<rparr>,
      request_Operation = ''CREATE'', request_Namespace = [], request_Name = ''bucket''\<rparr>
   = \<lparr>response_Allowed = True, response_Code = 200, response_Message = []\<rparr>"
  (is "Handle ?env ?request = _")
  using Handle_no_opinion [of ?request ?env] by (simp add: SeedsGroup_def)

end

